theory Spec2Isabelle
  imports Complex_Main
begin

section \<open>Addresses, numbers and the chain reader\<close>

text \<open>
  Addresses are the hex strings the indexer passes around. The chain reader is the set of
  RPC calls the indexer and the pools page make (\<open>readContract\<close>, \<open>getLogs\<close>,
  \<open>getBlock\<close>, \<open>getBlockNumber\<close>); a call that throws is \<open>None\<close>. BigInt values
  are \<open>nat\<close> (uint256 results) or \<open>int\<close> (block numbers, which the indexer subtracts from).
  In the indexer a JavaScript Number is an exact real. The double the program computes
  for a normalized reserve agrees with that real to a relative error of about \<open>10^-15\<close>, so
  the comparisons with the dust threshold are the program's except for reserves within
  that distance of the threshold. In the accumulations of the pools page, where the
  question is whether two sums are equal, the rounding of doubles is modelled.
\<close>

type_synonym address = string

definition lower_char :: "char \<Rightarrow> char" where
  "lower_char c =
     (if (65::nat) \<le> of_char c \<and> of_char c \<le> (90::nat)
      then char_of (of_char c + (32::nat)) else c)"

definition toLowerCase :: "string \<Rightarrow> string" where
  "toLowerCase s = map lower_char s"

definition USDC_ADDRESS :: address where
  "USDC_ADDRESS = ''0x3600000000000000000000000000000000000000''"

definition ZERO_ADDRESS :: address where
  "ZERO_ADDRESS = ''0x0000000000000000000000000000000000000000''"

record token_info =
  symbol :: string
  decimals :: nat

definition KNOWN_TOKENS :: "(address \<times> token_info) list" where
  "KNOWN_TOKENS =
     [(''0x3600000000000000000000000000000000000000'', \<lparr>symbol = ''USDC'', decimals = 6\<rparr>),
      (''0x12dfe2bd72c55e7d91e0679da7c9cc5ecb5524e6'', \<lparr>symbol = ''RAC'', decimals = 18\<rparr>),
      (''0xa1456f93c2f36f97497f82cffbb2eac063465d5'', \<lparr>symbol = ''RACD'', decimals = 18\<rparr>),
      (''0xd472f90af8048f1b2bcd8f22784e900146cd9ecc'', \<lparr>symbol = ''RACA'', decimals = 18\<rparr>)]"

record swap_args =
  amountAIn :: "nat option"
  amountBIn :: "nat option"
  amountAOut :: "nat option"
  amountBOut :: "nat option"

record swap_log =
  log_args :: "swap_args option"
  log_blockNumber :: int
  log_transactionHash :: string

record pool_created_log =
  created_pool :: "address option"

record chain =
  factory_allPoolsLength :: "nat option"
  factory_allPools :: "nat \<Rightarrow> address option"
  pool_tokenA :: "address \<Rightarrow> address option"
  pool_tokenB :: "address \<Rightarrow> address option"
  pool_reserveA :: "address \<Rightarrow> nat option"
  pool_reserveB :: "address \<Rightarrow> nat option"
  erc20_balanceOf :: "address \<Rightarrow> address \<Rightarrow> nat option"
  erc20_symbol :: "address \<Rightarrow> string option"
  erc20_decimals :: "address \<Rightarrow> nat option"
  getBlockNumber :: "int option"
  getBlock_timestamp :: "int \<Rightarrow> nat option"
  getLogs_Swap :: "address \<Rightarrow> int \<Rightarrow> int \<Rightarrow> swap_log list option"
  getLogs_PoolCreated :: "int \<Rightarrow> int \<Rightarrow> pool_created_log list option"

section \<open>Event extractor: \<open>processSwapEvents\<close>\<close>

record swap_event =
  se_poolAddress :: address
  se_tokenIn :: address
  se_tokenOut :: address
  se_amountIn :: nat
  se_amountOut :: nat
  se_timestamp :: nat
  se_txHash :: string
  se_blockNumber :: int

text \<open>\<open>x || BigInt(0)\<close>: an absent field reads as zero.\<close>

definition orZero :: "nat option \<Rightarrow> nat" where
  "orZero x = (case x of None \<Rightarrow> 0 | Some n \<Rightarrow> n)"

text \<open>
  The direction branch of the loop body: the result is \<open>(tokenIn, tokenOut, amountIn,
  amountOut)\<close>, and \<open>None\<close> is the \<open>continue\<close> of the last branch.
\<close>

definition swap_direction ::
  "address \<Rightarrow> address \<Rightarrow> swap_args \<Rightarrow> (address \<times> address \<times> nat \<times> nat) option" where
  "swap_direction tokenA tokenB a =
     (if orZero (amountAIn a) > 0
      then Some (tokenA, tokenB, orZero (amountAIn a), orZero (amountBOut a))
      else if orZero (amountBIn a) > 0
      then Some (tokenB, tokenA, orZero (amountBIn a), orZero (amountAOut a))
      else None)"

text \<open>
  The loop over the logs. The outer \<open>None\<close> is an exception (the block read threw), which
  leaves the loop; the events pushed so far are then lost with it.
\<close>

fun swap_loop ::
  "chain \<Rightarrow> address \<Rightarrow> address \<Rightarrow> address \<Rightarrow> swap_log list \<Rightarrow> swap_event list option" where
  "swap_loop c poolAddress tokenA tokenB [] = Some []"
| "swap_loop c poolAddress tokenA tokenB (l # ls) =
     (case log_args l of
        None \<Rightarrow> swap_loop c poolAddress tokenA tokenB ls
      | Some a \<Rightarrow>
          (case swap_direction tokenA tokenB a of
             None \<Rightarrow> swap_loop c poolAddress tokenA tokenB ls
           | Some (tIn, tOut, aIn, aOut) \<Rightarrow>
               (case getBlock_timestamp c (log_blockNumber l) of
                  None \<Rightarrow> None
                | Some ts \<Rightarrow>
                    (case swap_loop c poolAddress tokenA tokenB ls of
                       None \<Rightarrow> None
                     | Some evs \<Rightarrow>
                         Some (\<lparr>se_poolAddress = poolAddress, se_tokenIn = tIn,
                                se_tokenOut = tOut, se_amountIn = aIn, se_amountOut = aOut,
                                se_timestamp = ts * 1000,
                                se_txHash = log_transactionHash l,
                                se_blockNumber = log_blockNumber l\<rparr> # evs)))))"

text \<open>The whole function: any exception is caught, logged, and the result is \<open>[]\<close>.\<close>

definition processSwapEvents :: "chain \<Rightarrow> address \<Rightarrow> int \<Rightarrow> int \<Rightarrow> swap_event list" where
  "processSwapEvents c poolAddress fromBlock toBlock =
     (case getLogs_Swap c poolAddress fromBlock toBlock of
        None \<Rightarrow> []
      | Some logs \<Rightarrow>
          (case pool_tokenA c poolAddress of
             None \<Rightarrow> []
           | Some tokenA \<Rightarrow>
               (case pool_tokenB c poolAddress of
                  None \<Rightarrow> []
                | Some tokenB \<Rightarrow>
                    (case swap_loop c poolAddress tokenA tokenB logs of
                       None \<Rightarrow> []
                     | Some evs \<Rightarrow> evs))))"

section \<open>Token metadata: \<open>getTokenInfo\<close>\<close>

fun lookup_known :: "(address \<times> token_info) list \<Rightarrow> address \<Rightarrow> token_info option" where
  "lookup_known [] tokenLower = None"
| "lookup_known ((addr, info) # rest) tokenLower =
     (if toLowerCase addr = tokenLower then Some info else lookup_known rest tokenLower)"

definition pseudo_symbol :: "address \<Rightarrow> string" where
  "pseudo_symbol tokenAddress = take 6 tokenAddress @ ''...''"

definition getTokenInfo :: "chain \<Rightarrow> address \<Rightarrow> token_info" where
  "getTokenInfo c tokenAddress =
     (case lookup_known KNOWN_TOKENS (toLowerCase tokenAddress) of
        Some info \<Rightarrow> info
      | None \<Rightarrow>
          \<lparr>symbol = (case erc20_symbol c tokenAddress of
                       None \<Rightarrow> pseudo_symbol tokenAddress
                     | Some s \<Rightarrow> if s = [] then pseudo_symbol tokenAddress else s),
           decimals = (case erc20_decimals c tokenAddress of
                         None \<Rightarrow> 18
                       | Some d \<Rightarrow> if d = 0 then 18 else d)\<rparr>)"

section \<open>The indexer's price oracle: \<open>getTokenPriceInUSD\<close>\<close>

text \<open>
  \<open>formatted r d\<close> is \<open>Number(r) / (10 ** d)\<close>. The loop returns from the first pool that
  pairs the token with USDC and has a positive token reserve; a pool whose reads throw is
  skipped (\<open>continue\<close>), and the end of the list is the final \<open>return 0\<close>. The two reserve
  reads are the pool contract's \<open>reserveA\<close> and \<open>reserveB\<close> functions.
\<close>

definition formatted :: "nat \<Rightarrow> nat \<Rightarrow> real" where
  "formatted r d = real r / 10 ^ d"

fun usdc_pair_loop :: "chain \<Rightarrow> address \<Rightarrow> address list \<Rightarrow> real" where
  "usdc_pair_loop c tokenAddress [] = 0"
| "usdc_pair_loop c tokenAddress (poolAddress # rest) =
     (case pool_tokenA c poolAddress of
        None \<Rightarrow> usdc_pair_loop c tokenAddress rest
      | Some tokenA \<Rightarrow>
     (case pool_tokenB c poolAddress of
        None \<Rightarrow> usdc_pair_loop c tokenAddress rest
      | Some tokenB \<Rightarrow>
          if toLowerCase tokenA = toLowerCase USDC_ADDRESS
             \<and> toLowerCase tokenB = toLowerCase tokenAddress
          then
            (case pool_reserveA c poolAddress of
               None \<Rightarrow> usdc_pair_loop c tokenAddress rest
             | Some reserveA \<Rightarrow>
            (case pool_reserveB c poolAddress of
               None \<Rightarrow> usdc_pair_loop c tokenAddress rest
             | Some reserveB \<Rightarrow>
                 if formatted reserveB (decimals (getTokenInfo c tokenB)) > 0
                 then formatted reserveA 6 / formatted reserveB (decimals (getTokenInfo c tokenB))
                 else usdc_pair_loop c tokenAddress rest))
          else if toLowerCase tokenB = toLowerCase USDC_ADDRESS
                  \<and> toLowerCase tokenA = toLowerCase tokenAddress
          then
            (case pool_reserveA c poolAddress of
               None \<Rightarrow> usdc_pair_loop c tokenAddress rest
             | Some reserveA \<Rightarrow>
            (case pool_reserveB c poolAddress of
               None \<Rightarrow> usdc_pair_loop c tokenAddress rest
             | Some reserveB \<Rightarrow>
                 if formatted reserveA (decimals (getTokenInfo c tokenA)) > 0
                 then formatted reserveB 6 / formatted reserveA (decimals (getTokenInfo c tokenA))
                 else usdc_pair_loop c tokenAddress rest))
          else usdc_pair_loop c tokenAddress rest))"

definition getTokenPriceInUSD :: "chain \<Rightarrow> address \<Rightarrow> address list \<Rightarrow> real" where
  "getTokenPriceInUSD c tokenAddress pools =
     (if toLowerCase tokenAddress = toLowerCase USDC_ADDRESS then 1
      else usdc_pair_loop c tokenAddress pools)"

section \<open>The store and its writers\<close>

text \<open>
  The three tables are lists of rows in insertion order. Timestamps are milliseconds since
  the epoch (the ISO strings of the source denote them one to one), and the decimal strings
  of the amount columns are the numbers they denote. The columns the database fills in
  itself (\<open>id\<close>, \<open>created_at\<close>) are left out. A call of the store client either takes
  effect, returns an error object (nothing is written or read), or throws.
\<close>

record swap_row =
  sr_tx_hash :: string
  sr_pool_address :: address
  sr_token_in :: address
  sr_token_out :: address
  sr_amount_in :: nat
  sr_amount_out :: nat
  sr_block_number :: int
  sr_timestamp :: nat

record pool_row =
  pr_pool_address :: address
  pr_token_a :: address
  pr_token_b :: address
  pr_token_a_symbol :: string
  pr_token_b_symbol :: string
  pr_reserve_a :: nat
  pr_reserve_b :: nat
  pr_reserve_a_decimals :: nat
  pr_reserve_b_decimals :: nat
  pr_total_liquidity :: real
  pr_last_updated :: nat

text \<open>
  A quotient of two non-negative Numbers: JavaScript gives \<open>Infinity\<close> for \<open>x / 0\<close> with
  \<open>x > 0\<close> and \<open>NaN\<close> for \<open>0 / 0\<close>.
\<close>

datatype jsnum = Fin real | Infinity | NaN

definition js_div :: "real \<Rightarrow> real \<Rightarrow> jsnum" where
  "js_div a b = (if b \<noteq> 0 then Fin (a / b) else if a = 0 then NaN else Infinity)"

record price_row =
  ph_pool_address :: address
  ph_token_a :: address
  ph_token_b :: address
  ph_token_a_symbol :: string
  ph_token_b_symbol :: string
  ph_price_a_per_b :: jsnum
  ph_price_b_per_a :: jsnum
  ph_reserve_a :: nat
  ph_reserve_b :: nat
  ph_timestamp :: nat

record store =
  swap_events :: "swap_row list"
  pools_tbl :: "pool_row list"
  price_history :: "price_row list"

datatype outcome = Done | Failed | Thrown

record store_env =
  swap_upsert_outcome :: "string \<Rightarrow> outcome"
  pool_upsert_outcome :: "address \<Rightarrow> outcome"
  pool_delete_outcome :: "address \<Rightarrow> outcome"
  price_select_outcome :: "address \<Rightarrow> outcome"
  price_insert_outcome :: "address \<Rightarrow> outcome"
  clock :: "nat \<Rightarrow> nat"

subsection \<open>\<open>storeSwapEvents\<close>\<close>

text \<open>
  \<open>upsert(row, {onConflict: 'tx_hash'})\<close>: the row with the same \<open>tx_hash\<close> is replaced
  where it stands, and a row with a new hash is appended.
\<close>

fun upsert_swap :: "swap_row \<Rightarrow> swap_row list \<Rightarrow> swap_row list" where
  "upsert_swap r [] = [r]"
| "upsert_swap r (x # xs) =
     (if sr_tx_hash x = sr_tx_hash r then r # xs else x # upsert_swap r xs)"

definition swap_row_of :: "swap_event \<Rightarrow> swap_row" where
  "swap_row_of e =
     \<lparr>sr_tx_hash = se_txHash e,
      sr_pool_address = toLowerCase (se_poolAddress e),
      sr_token_in = toLowerCase (se_tokenIn e),
      sr_token_out = toLowerCase (se_tokenOut e),
      sr_amount_in = se_amountIn e,
      sr_amount_out = se_amountOut e,
      sr_block_number = se_blockNumber e,
      sr_timestamp = se_timestamp e\<rparr>"

fun storeSwapEvents_loop :: "store_env \<Rightarrow> swap_event list \<Rightarrow> swap_row list \<Rightarrow> swap_row list" where
  "storeSwapEvents_loop env [] tbl = tbl"
| "storeSwapEvents_loop env (e # es) tbl =
     (case swap_upsert_outcome env (se_txHash e) of
        Done \<Rightarrow> storeSwapEvents_loop env es (upsert_swap (swap_row_of e) tbl)
      | Failed \<Rightarrow> storeSwapEvents_loop env es tbl
      | Thrown \<Rightarrow> tbl)"

definition storeSwapEvents :: "store_env \<Rightarrow> swap_event list \<Rightarrow> store \<Rightarrow> store" where
  "storeSwapEvents env events st =
     (if events = [] then st
      else st\<lparr>swap_events := storeSwapEvents_loop env events (swap_events st)\<rparr>)"

subsection \<open>\<open>storePriceHistory\<close>\<close>

text \<open>
  The select: the newest timestamp among the rows of this pool, or nothing when the pool
  has no row (\<open>.order('timestamp', desc).limit(1).single()\<close>).
\<close>

definition last_snapshot :: "address \<Rightarrow> price_row list \<Rightarrow> nat option" where
  "last_snapshot key ph =
     (case map ph_timestamp (filter (\<lambda>r. ph_pool_address r = key) ph) of
        [] \<Rightarrow> None
      | t # ts \<Rightarrow> Some (fold max ts t))"

text \<open>The insert: the table's \<open>UNIQUE(pool_address, timestamp)\<close> rejects a duplicate key.\<close>

definition insert_price :: "price_row \<Rightarrow> price_row list \<Rightarrow> price_row list" where
  "insert_price r ph =
     (if \<exists>x \<in> set ph. ph_pool_address x = ph_pool_address r \<and> ph_timestamp x = ph_timestamp r
      then ph else ph @ [r])"

text \<open>
  \<open>storePriceHistory\<close> destructures only \<open>data\<close> from the result of the select. A select
  that returns an error object leaves \<open>data\<close> null, which the code reads like a pool without
  any snapshot; a select that throws ends the function in its \<open>catch\<close>.
\<close>

definition storePriceHistory ::
  "store_env \<Rightarrow> nat \<Rightarrow> address \<Rightarrow> address \<Rightarrow> address \<Rightarrow> token_info \<Rightarrow> token_info
     \<Rightarrow> nat \<Rightarrow> nat \<Rightarrow> price_row list \<Rightarrow> price_row list" where
  "storePriceHistory env now poolAddress tokenA tokenB tokenAInfo tokenBInfo reserveA reserveB ph =
     (let reserveAFormatted = formatted reserveA (decimals tokenAInfo);
          reserveBFormatted = formatted reserveB (decimals tokenBInfo);
          priceAperB = js_div reserveBFormatted reserveAFormatted;
          priceBperA = js_div reserveAFormatted reserveBFormatted;
          lastSnapshot =
            (case price_select_outcome env (toLowerCase poolAddress) of
               Done \<Rightarrow> last_snapshot (toLowerCase poolAddress) ph
             | Failed \<Rightarrow> None
             | Thrown \<Rightarrow> None)
      in if price_select_outcome env (toLowerCase poolAddress) = Thrown then ph
         else if (case lastSnapshot of None \<Rightarrow> True | Some t \<Rightarrow> int now - int t > 60000)
         then (case price_insert_outcome env (toLowerCase poolAddress) of
                 Done \<Rightarrow>
                   insert_price
                     \<lparr>ph_pool_address = toLowerCase poolAddress,
                      ph_token_a = toLowerCase tokenA,
                      ph_token_b = toLowerCase tokenB,
                      ph_token_a_symbol = symbol tokenAInfo,
                      ph_token_b_symbol = symbol tokenBInfo,
                      ph_price_a_per_b = priceAperB,
                      ph_price_b_per_a = priceBperA,
                      ph_reserve_a = reserveA,
                      ph_reserve_b = reserveB,
                      ph_timestamp = now\<rparr> ph
               | Failed \<Rightarrow> ph
               | Thrown \<Rightarrow> ph)
         else ph)"

subsection \<open>\<open>storePoolData\<close>\<close>

fun upsert_pool :: "pool_row \<Rightarrow> pool_row list \<Rightarrow> pool_row list" where
  "upsert_pool r [] = [r]"
| "upsert_pool r (x # xs) =
     (if pr_pool_address x = pr_pool_address r then r # xs else x # upsert_pool r xs)"

definition delete_pool :: "address \<Rightarrow> pool_row list \<Rightarrow> pool_row list" where
  "delete_pool key tbl = filter (\<lambda>r. pr_pool_address r \<noteq> key) tbl"

text \<open>
  One iteration of the loop over the pools, at time \<open>now\<close>. Every read that throws ends the
  iteration in the inner \<open>catch\<close>, with the store as it was. The reserves are the two
  \<open>balanceOf\<close> reads of the tokens against the pool address. \<open>pool_row_of\<close> is the row
  that the iteration hands to the upsert.
\<close>

definition pool_row_of ::
  "chain \<Rightarrow> address list \<Rightarrow> nat \<Rightarrow> address \<Rightarrow> address \<Rightarrow> address \<Rightarrow> nat \<Rightarrow> nat \<Rightarrow> pool_row" where
  "pool_row_of c pools now poolAddress tokenA tokenB reserveA reserveB =
     (let tokenAInfo = getTokenInfo c tokenA;
          tokenBInfo = getTokenInfo c tokenB;
          tokenAPrice = getTokenPriceInUSD c tokenA pools;
          tokenBPrice = getTokenPriceInUSD c tokenB pools;
          reserveAFormatted = formatted reserveA (decimals tokenAInfo);
          reserveBFormatted = formatted reserveB (decimals tokenBInfo);
          reserveAValue = reserveAFormatted * tokenAPrice;
          reserveBValue = reserveBFormatted * tokenBPrice;
          totalLiquidity = reserveAValue + reserveBValue
      in \<lparr>pr_pool_address = toLowerCase poolAddress,
          pr_token_a = toLowerCase tokenA,
          pr_token_b = toLowerCase tokenB,
          pr_token_a_symbol = symbol tokenAInfo,
          pr_token_b_symbol = symbol tokenBInfo,
          pr_reserve_a = reserveA,
          pr_reserve_b = reserveB,
          pr_reserve_a_decimals = decimals tokenAInfo,
          pr_reserve_b_decimals = decimals tokenBInfo,
          pr_total_liquidity = totalLiquidity,
          pr_last_updated = now\<rparr>)"

definition storePool :: "chain \<Rightarrow> store_env \<Rightarrow> address list \<Rightarrow> nat \<Rightarrow> address \<Rightarrow> store \<Rightarrow> store" where
  "storePool c env pools now poolAddress st =
     (case getBlockNumber c of None \<Rightarrow> st | Some currentBlock \<Rightarrow>
     (case pool_tokenA c poolAddress of None \<Rightarrow> st | Some tokenA \<Rightarrow>
     (case pool_tokenB c poolAddress of None \<Rightarrow> st | Some tokenB \<Rightarrow>
     (case erc20_balanceOf c tokenA poolAddress of None \<Rightarrow> st | Some reserveA \<Rightarrow>
     (case erc20_balanceOf c tokenB poolAddress of None \<Rightarrow> st | Some reserveB \<Rightarrow>
        (if formatted reserveA (decimals (getTokenInfo c tokenA)) > 1 / 1000000
            \<and> formatted reserveB (decimals (getTokenInfo c tokenB)) > 1 / 1000000
         then (case pool_upsert_outcome env (toLowerCase poolAddress) of
                 Done \<Rightarrow>
                   st\<lparr>pools_tbl :=
                        upsert_pool
                          (pool_row_of c pools now poolAddress tokenA tokenB reserveA reserveB)
                          (pools_tbl st),
                      price_history :=
                        storePriceHistory env now poolAddress tokenA tokenB
                          (getTokenInfo c tokenA) (getTokenInfo c tokenB)
                          reserveA reserveB (price_history st)\<rparr>
               | Failed \<Rightarrow> st
               | Thrown \<Rightarrow> st)
         else (case pool_delete_outcome env (toLowerCase poolAddress) of
                 Done \<Rightarrow> st\<lparr>pools_tbl := delete_pool (toLowerCase poolAddress) (pools_tbl st)\<rparr>
               | Failed \<Rightarrow> st
               | Thrown \<Rightarrow> st)))))))"

text \<open>The loop: iteration \<open>i\<close> runs at time \<open>clock env i\<close>.\<close>

fun storePoolData_loop ::
  "chain \<Rightarrow> store_env \<Rightarrow> address list \<Rightarrow> nat \<Rightarrow> address list \<Rightarrow> store \<Rightarrow> store" where
  "storePoolData_loop c env pools i [] st = st"
| "storePoolData_loop c env pools i (poolAddress # rest) st =
     storePoolData_loop c env pools (Suc i) rest
       (storePool c env pools (clock env i) poolAddress st)"

definition storePoolData :: "chain \<Rightarrow> store_env \<Rightarrow> address list \<Rightarrow> store \<Rightarrow> store" where
  "storePoolData c env pools st =
     (if pools = [] then st else storePoolData_loop c env pools 0 pools st)"

section \<open>Pool registry and the polling cycle\<close>

record indexer_state =
  knownPools :: "address set"
  lastProcessedBlock :: "int option"

datatype cycle_outcome = Completed | Threw

text \<open>
  \<open>fetchAllPools\<close>: a pool index whose read throws is skipped; when the pool count cannot
  be read the result is the empty list.
\<close>

definition fetch_step :: "chain \<Rightarrow> address list \<times> address set \<Rightarrow> nat \<Rightarrow> address list \<times> address set" where
  "fetch_step c acc i =
     (case factory_allPools c i of
        None \<Rightarrow> acc
      | Some poolAddress \<Rightarrow>
          if poolAddress \<noteq> [] \<and> poolAddress \<noteq> ZERO_ADDRESS
          then (fst acc @ [poolAddress], insert (toLowerCase poolAddress) (snd acc))
          else acc)"

definition fetchAllPools :: "chain \<Rightarrow> address set \<Rightarrow> address list \<times> address set" where
  "fetchAllPools c known =
     (case factory_allPoolsLength c of
        None \<Rightarrow> ([], known)
      | Some poolCount \<Rightarrow> foldl (fetch_step c) ([], known) [0..<poolCount])"

definition add_created :: "address list \<times> address set \<Rightarrow> pool_created_log \<Rightarrow> address list \<times> address set" where
  "add_created acc l =
     (case created_pool l of
        None \<Rightarrow> acc
      | Some newPool \<Rightarrow>
          if newPool \<noteq> [] \<and> toLowerCase newPool \<notin> snd acc
          then (fst acc @ [newPool], insert (toLowerCase newPool) (snd acc))
          else acc)"

text \<open>
  The part of \<open>index\<close> after the cursor assignment: the two store writers, neither of
  which can throw (each catches everything it raises).
\<close>

definition persist ::
  "chain \<Rightarrow> store_env \<Rightarrow> address list \<Rightarrow> swap_event list \<Rightarrow> store \<Rightarrow> store" where
  "persist c env pools allSwapEvents st =
     storePoolData c env pools
       (if allSwapEvents \<noteq> [] then storeSwapEvents env allSwapEvents st else st)"

text \<open>
  \<open>index\<close>: one cycle. \<open>cursor_or_lookback\<close> is the initialisation of the cursor on
  \<open>!lastProcessedBlock\<close>, which holds for \<open>null\<close> and for \<open>0n\<close>. The two calls that are not
  inside a \<open>try\<close> are the head-block read and the \<open>PoolCreated\<close> log query.
\<close>

definition cursor_or_lookback :: "int option \<Rightarrow> int \<Rightarrow> int" where
  "cursor_or_lookback cursor currentBlock =
     (case cursor of
        None \<Rightarrow> currentBlock - 10000
      | Some b \<Rightarrow> if b = 0 then currentBlock - 10000 else b)"

definition index ::
  "chain \<Rightarrow> store_env \<Rightarrow> indexer_state \<times> store \<Rightarrow> indexer_state \<times> store \<times> cycle_outcome" where
  "index c env s =
     (let fetched = fetchAllPools c (knownPools (fst s));
          pools = fst fetched;
          known = snd fetched
      in case getBlockNumber c of
           None \<Rightarrow> ((fst s)\<lparr>knownPools := known\<rparr>, snd s, Threw)
         | Some currentBlock \<Rightarrow>
             (let lastBlock = cursor_or_lookback (lastProcessedBlock (fst s)) currentBlock;
                  fromBlock = lastBlock + 1;
                  toBlock = currentBlock;
                  allSwapEvents =
                    (if fromBlock \<le> toBlock
                     then concat (map (\<lambda>poolAddress. processSwapEvents c poolAddress fromBlock toBlock) pools)
                     else [])
              in if fromBlock \<le> toBlock
                 then (case getLogs_PoolCreated c fromBlock toBlock of
                         None \<Rightarrow>
                           (\<lparr>knownPools = known, lastProcessedBlock = Some lastBlock\<rparr>, snd s, Threw)
                       | Some poolCreatedLogs \<Rightarrow>
                           (let added = foldl add_created (pools, known) poolCreatedLogs
                            in (\<lparr>knownPools = snd added, lastProcessedBlock = Some toBlock\<rparr>,
                                persist c env (fst added) allSwapEvents (snd s), Completed)))
                 else (\<lparr>knownPools = known, lastProcessedBlock = Some lastBlock\<rparr>,
                       persist c env pools allSwapEvents (snd s), Completed)))"

text \<open>
  \<open>run\<close>: the polling loop, on the first cycles of a run. Each cycle has its own chain
  state and store behaviour; an exception of \<open>index\<close> is logged and the loop goes on.
\<close>

fun run :: "(chain \<times> store_env) list \<Rightarrow> indexer_state \<times> store \<Rightarrow> indexer_state \<times> store" where
  "run [] s = s"
| "run ((c, env) # cycles) s =
     (case index c env s of (s', st', r) \<Rightarrow> run cycles (s', st'))"

section \<open>The pools page: price resolution and metrics\<close>

record pool_info =
  pi_tokenA :: address
  pi_tokenB :: address
  pi_tokenASymbol :: string
  pi_tokenBSymbol :: string
  pi_poolAddress :: address

definition TOKENS :: "(string \<times> address \<times> nat) list" where
  "TOKENS =
     [(''SRAC'', ''0x49cd69442dB073E7b94B0124e316AB7C68b95988'', 18),
      (''RACS'', ''0x6E63e2cABECCe5c3A1c37b79A958a9542076A1e3'', 18),
      (''SACS'', ''0x63F856fBAB3535174bFaFD6EFd720C634d6FD458'', 18),
      (''USDC'', ''0x3600000000000000000000000000000000000000'', 6)]"

text \<open>\<open>Object.entries(TOKENS).find(...)?.[1]?.decimals || 18\<close>\<close>

definition token_decimals :: "address \<Rightarrow> nat" where
  "token_decimals a =
     (case find (\<lambda>t. toLowerCase (fst (snd t)) = toLowerCase a) TOKENS of
        None \<Rightarrow> 18
      | Some t \<Rightarrow> if snd (snd t) = 0 then 18 else snd (snd t))"

text \<open>The two \<open>balanceOf\<close> reads of a pool, formatted; \<open>None\<close> when a read throws.\<close>

definition pool_balances :: "chain \<Rightarrow> pool_info \<Rightarrow> (real \<times> real) option" where
  "pool_balances c p =
     (case erc20_balanceOf c (pi_tokenA p) (pi_poolAddress p) of
        None \<Rightarrow> None
      | Some reserveA \<Rightarrow>
          (case erc20_balanceOf c (pi_tokenB p) (pi_poolAddress p) of
             None \<Rightarrow> None
           | Some reserveB \<Rightarrow>
               Some (formatted reserveA (token_decimals (pi_tokenA p)),
                     formatted reserveB (token_decimals (pi_tokenB p)))))"

text \<open>\<open>x || 0\<close>, \<open>x > 0\<close> and \<open>x * y\<close> on non-negative Numbers.\<close>

fun js_or0 :: "jsnum \<Rightarrow> jsnum" where
  "js_or0 NaN = Fin 0"
| "js_or0 x = x"

fun js_pos :: "jsnum \<Rightarrow> bool" where
  "js_pos (Fin r) = (r > 0)"
| "js_pos Infinity = True"
| "js_pos NaN = False"

fun js_mul :: "jsnum \<Rightarrow> jsnum \<Rightarrow> jsnum" where
  "js_mul (Fin a) (Fin b) = Fin (a * b)"
| "js_mul NaN y = NaN"
| "js_mul x NaN = NaN"
| "js_mul Infinity (Fin b) = (if b = 0 then NaN else Infinity)"
| "js_mul (Fin a) Infinity = (if a = 0 then NaN else Infinity)"
| "js_mul Infinity Infinity = Infinity"

text \<open>
  The first loop of the page's \<open>getTokenPriceInUSD\<close>: the direct USDC pair. \<open>Some\<close> is the
  value returned from inside the loop, \<open>None\<close> means the loop ran to its end.
\<close>

fun direct_loop :: "chain \<Rightarrow> address \<Rightarrow> pool_info list \<Rightarrow> jsnum option" where
  "direct_loop c tokenAddrLower [] = None"
| "direct_loop c tokenAddrLower (p # rest) =
     (let tokenA = toLowerCase (pi_tokenA p);
          tokenB = toLowerCase (pi_tokenB p);
          usdcAddress = toLowerCase USDC_ADDRESS
      in if (tokenA = usdcAddress \<or> tokenB = usdcAddress)
            \<and> (if tokenA = usdcAddress then tokenB else tokenA) = tokenAddrLower
         then (case pool_balances c p of
                 None \<Rightarrow> direct_loop c tokenAddrLower rest
               | Some rs \<Rightarrow>
                   if tokenA = usdcAddress
                   then Some (js_or0 (js_div (fst rs) (snd rs)))
                   else Some (js_or0 (js_div (snd rs) (fst rs))))
         else direct_loop c tokenAddrLower rest)"

text \<open>
  The second loop, with the recursive call: \<open>indirect_loop c allPools rest tokenAddress\<close> is
  the loop of the call for \<open>tokenAddress\<close> standing before the pools \<open>rest\<close>. The recursive
  call for the intermediate token is inlined: it returns 1 for USDC, the value of its
  first loop if that returns, and otherwise enters its own second loop over all pools. A
  call that never returns a price has the value \<open>None\<close> (a JavaScript engine ends such a
  call only by exhausting its call stack).
\<close>

partial_function (option) indirect_loop ::
  "chain \<Rightarrow> pool_info list \<Rightarrow> pool_info list \<Rightarrow> address \<Rightarrow> jsnum option" where
  "indirect_loop c allPools rest tokenAddress =
     (case rest of
        [] \<Rightarrow> Some (Fin 0)
      | p # ps \<Rightarrow>
          if (toLowerCase (pi_tokenA p) = toLowerCase tokenAddress
                \<or> toLowerCase (pi_tokenB p) = toLowerCase tokenAddress)
             \<and> toLowerCase (pi_tokenA p) \<noteq> toLowerCase USDC_ADDRESS
             \<and> toLowerCase (pi_tokenB p) \<noteq> toLowerCase USDC_ADDRESS
          then
            Option.bind
              (if toLowerCase
                    (if toLowerCase (pi_tokenA p) = toLowerCase tokenAddress
                     then toLowerCase (pi_tokenB p) else toLowerCase (pi_tokenA p))
                  = toLowerCase USDC_ADDRESS
               then Some (Fin 1)
               else if direct_loop c
                         (toLowerCase
                            (if toLowerCase (pi_tokenA p) = toLowerCase tokenAddress
                             then toLowerCase (pi_tokenB p) else toLowerCase (pi_tokenA p)))
                         allPools \<noteq> None
               then direct_loop c
                      (toLowerCase
                         (if toLowerCase (pi_tokenA p) = toLowerCase tokenAddress
                          then toLowerCase (pi_tokenB p) else toLowerCase (pi_tokenA p)))
                      allPools
               else indirect_loop c allPools allPools
                      (if toLowerCase (pi_tokenA p) = toLowerCase tokenAddress
                       then toLowerCase (pi_tokenB p) else toLowerCase (pi_tokenA p)))
              (\<lambda>intermediatePrice.
                 if js_pos intermediatePrice
                 then (case pool_balances c p of
                         None \<Rightarrow> indirect_loop c allPools ps tokenAddress
                       | Some rs \<Rightarrow>
                           Some (js_mul
                                   (if toLowerCase (pi_tokenA p) = toLowerCase tokenAddress
                                    then js_div (snd rs) (fst rs)
                                    else js_div (fst rs) (snd rs))
                                   intermediatePrice))
                 else indirect_loop c allPools ps tokenAddress)
          else indirect_loop c allPools ps tokenAddress)"

definition Pools_getTokenPriceInUSD :: "chain \<Rightarrow> address \<Rightarrow> pool_info list \<Rightarrow> jsnum option" where
  "Pools_getTokenPriceInUSD c tokenAddress allPools =
     (if toLowerCase tokenAddress = toLowerCase USDC_ADDRESS then Some (Fin 1)
      else if direct_loop c (toLowerCase tokenAddress) allPools \<noteq> None
      then direct_loop c (toLowerCase tokenAddress) allPools
      else indirect_loop c allPools allPools tokenAddress)"

subsection \<open>Double arithmetic\<close>







subsection \<open>\<open>fetchMetricsFast\<close>\<close>









section \<open>Specification-side definitions and example inputs\<close>

text \<open>
  What the specification says a swap log becomes: the direction follows the nonzero
  in-amount, and a log with both in-amounts zero gives nothing.
\<close>

definition spec_swap_leg ::
  "address \<Rightarrow> address \<Rightarrow> swap_log \<Rightarrow> (address \<times> address \<times> nat \<times> nat \<times> string) option" where
  "spec_swap_leg tA tB l =
     (case log_args l of
        None \<Rightarrow> None
      | Some a \<Rightarrow>
          if orZero (amountAIn a) \<noteq> 0
          then Some (tA, tB, orZero (amountAIn a), orZero (amountBOut a), log_transactionHash l)
          else if orZero (amountBIn a) \<noteq> 0
          then Some (tB, tA, orZero (amountBIn a), orZero (amountAOut a), log_transactionHash l)
          else None)"

definition legs_of :: "swap_event \<Rightarrow> address \<times> address \<times> nat \<times> nat \<times> string" where
  "legs_of e = (se_tokenIn e, se_tokenOut e, se_amountIn e, se_amountOut e, se_txHash e)"

text \<open>A chain reader on which every call throws; the examples override what they need.\<close>

definition silent_chain :: chain where
  "silent_chain =
     \<lparr>factory_allPoolsLength = None, factory_allPools = (\<lambda>i. None),
      pool_tokenA = (\<lambda>p. None), pool_tokenB = (\<lambda>p. None),
      pool_reserveA = (\<lambda>p. None), pool_reserveB = (\<lambda>p. None),
      erc20_balanceOf = (\<lambda>t a. None), erc20_symbol = (\<lambda>t. None),
      erc20_decimals = (\<lambda>t. None), getBlockNumber = None,
      getBlock_timestamp = (\<lambda>b. None), getLogs_Swap = (\<lambda>p f t. None),
      getLogs_PoolCreated = (\<lambda>f t. None)\<rparr>"

definition ex_logs :: "swap_log list" where
  "ex_logs =
     [\<lparr>log_args = Some \<lparr>amountAIn = Some 5, amountBIn = Some 0,
                         amountAOut = Some 0, amountBOut = Some 9\<rparr>,
       log_blockNumber = 7, log_transactionHash = ''0xa1''\<rparr>,
      \<lparr>log_args = Some \<lparr>amountAIn = Some 0, amountBIn = Some 4,
                         amountAOut = Some 2, amountBOut = Some 0\<rparr>,
       log_blockNumber = 8, log_transactionHash = ''0xb2''\<rparr>,
      \<lparr>log_args = Some \<lparr>amountAIn = Some 0, amountBIn = Some 0,
                         amountAOut = Some 1, amountBOut = Some 1\<rparr>,
       log_blockNumber = 9, log_transactionHash = ''0xc3''\<rparr>]"

definition ex_swap_chain :: chain where
  "ex_swap_chain =
     silent_chain\<lparr>pool_tokenA := (\<lambda>p. Some ''0xAA''), pool_tokenB := (\<lambda>p. Some ''0xBB''),
                  getBlock_timestamp := (\<lambda>b. Some 1700000000),
                  getLogs_Swap := (\<lambda>p f t. Some ex_logs)\<rparr>"

text \<open>A store client whose every write takes effect, with a clock that stands still.\<close>

definition all_done :: store_env where
  "all_done =
     \<lparr>swap_upsert_outcome = (\<lambda>h. Done), pool_upsert_outcome = (\<lambda>p. Done),
      pool_delete_outcome = (\<lambda>p. Done), price_select_outcome = (\<lambda>p. Done),
      price_insert_outcome = (\<lambda>p. Done), clock = (\<lambda>i. 1700000000000)\<rparr>"

definition ex_event :: swap_event where
  "ex_event =
     \<lparr>se_poolAddress = ''0xP1'', se_tokenIn = ''0xAA'', se_tokenOut = ''0xBB'',
      se_amountIn = 5, se_amountOut = 9, se_timestamp = 1700000000000,
      se_txHash = ''0xabc'', se_blockNumber = 7\<rparr>"

definition ex_store :: store where
  "ex_store =
     \<lparr>swap_events =
        [\<lparr>sr_tx_hash = ''0xdef'', sr_pool_address = ''0xp1'', sr_token_in = ''0xbb'',
          sr_token_out = ''0xaa'', sr_amount_in = 4, sr_amount_out = 2,
          sr_block_number = 6, sr_timestamp = 1699999990000\<rparr>],
      pools_tbl = [], price_history = []\<rparr>"

text \<open>
  The throttle property of the \<open>price_history\<close> table: any two rows of the same pool are
  at least 60 seconds apart.
\<close>

fun throttled :: "price_row list \<Rightarrow> bool" where
  "throttled [] = True"
| "throttled (r # rs) =
     ((\<forall>x \<in> set rs. ph_pool_address x = ph_pool_address r
          \<longrightarrow> \<bar>int (ph_timestamp x) - int (ph_timestamp r)\<bar> \<ge> 60000)
      \<and> throttled rs)"

text \<open>
  Scenario A of the specification: one pool with tokenA = USDC (1000 units, 6 decimals) and
  tokenB = a token with 18 decimals (500 units). On \<open>scenario_chain\<close> the pool's stored
  reserve counters agree with the balances; on \<open>drifted_chain\<close> the balances are the same
  and the stored counter of tokenB has drifted to 250 units.
\<close>

definition TKN :: address where
  "TKN = ''0x7777777777777777777777777777777777777777''"

definition P1 :: address where
  "P1 = ''0x1111111111111111111111111111111111111111''"

definition scenario_chain :: chain where
  "scenario_chain =
     \<lparr>factory_allPoolsLength = Some 1,
      factory_allPools = (\<lambda>i. if i = 0 then Some P1 else None),
      pool_tokenA = (\<lambda>p. if p = P1 then Some USDC_ADDRESS else None),
      pool_tokenB = (\<lambda>p. if p = P1 then Some TKN else None),
      pool_reserveA = (\<lambda>p. if p = P1 then Some 1000000000 else None),
      pool_reserveB = (\<lambda>p. if p = P1 then Some 500000000000000000000 else None),
      erc20_balanceOf =
        (\<lambda>t a. if a = P1 \<and> t = USDC_ADDRESS then Some 1000000000
               else if a = P1 \<and> t = TKN then Some 500000000000000000000
               else None),
      erc20_symbol = (\<lambda>t. if t = TKN then Some ''TKN'' else None),
      erc20_decimals = (\<lambda>t. if t = TKN then Some 18 else None),
      getBlockNumber = Some 100,
      getBlock_timestamp = (\<lambda>b. Some 1700000000),
      getLogs_Swap = (\<lambda>p f t. Some []),
      getLogs_PoolCreated = (\<lambda>f t. Some [])\<rparr>"

definition drifted_chain :: chain where
  "drifted_chain =
     scenario_chain\<lparr>pool_reserveB := (\<lambda>p. if p = P1 then Some 250000000000000000000 else None)\<rparr>"

definition empty_store :: store where
  "empty_store = \<lparr>swap_events = [], pools_tbl = [], price_history = []\<rparr>"

text \<open>The rows of the \<open>pools\<close> table for one key.\<close>

definition pool_rows :: "address \<Rightarrow> store \<Rightarrow> pool_row list" where
  "pool_rows k st = filter (\<lambda>r. pr_pool_address r = k) (pools_tbl st)"



text \<open>A stored price that is a finite, strictly positive number.\<close>

fun finite_positive :: "jsnum \<Rightarrow> bool" where
  "finite_positive (Fin r) = (r > 0)"
| "finite_positive Infinity = False"
| "finite_positive NaN = False"

definition ex_price_row :: price_row where
  "ex_price_row =
     \<lparr>ph_pool_address = P1, ph_token_a = USDC_ADDRESS, ph_token_b = TKN,
      ph_token_a_symbol = ''USDC'', ph_token_b_symbol = ''TKN'',
      ph_price_a_per_b = Fin (1 / 2), ph_price_b_per_a = Fin 2,
      ph_reserve_a = 1000000000, ph_reserve_b = 500000000000000000000,
      ph_timestamp = 1700000000000\<rparr>"

definition fresh_state :: indexer_state where
  "fresh_state = \<lparr>knownPools = {}, lastProcessedBlock = None\<rparr>"

text \<open>Every stored snapshot has two finite, strictly positive prices.\<close>

definition positive_prices :: "price_row list \<Rightarrow> bool" where
  "positive_prices ph =
     (\<forall>x \<in> set ph. finite_positive (ph_price_a_per_b x) \<and> finite_positive (ph_price_b_per_a x))"

text \<open>
  A pool graph without any stable leg, and a pool that holds a token (compared in lower
  case, as the resolver compares them).
\<close>

definition no_stable_leg :: "pool_info list \<Rightarrow> bool" where
  "no_stable_leg allPools =
     (\<forall>p \<in> set allPools. toLowerCase (pi_tokenA p) \<noteq> toLowerCase USDC_ADDRESS
                        \<and> toLowerCase (pi_tokenB p) \<noteq> toLowerCase USDC_ADDRESS)"

definition holds_token :: "pool_info \<Rightarrow> address \<Rightarrow> bool" where
  "holds_token p tokenAddress =
     (toLowerCase (pi_tokenA p) = toLowerCase tokenAddress
      \<or> toLowerCase (pi_tokenB p) = toLowerCase tokenAddress)"

text \<open>
  The words of the specification on routes, on the page's pool records: a pool pairing the
  token directly with the stable asset; a pool pairing the token with a non-stable
  intermediate token; that intermediate; and the token's decimal-normalized reserve ratio
  against the intermediate.
\<close>

definition page_direct_pair :: "pool_info \<Rightarrow> address \<Rightarrow> bool" where
  "page_direct_pair p tokenAddress =
     ((toLowerCase (pi_tokenA p) = toLowerCase USDC_ADDRESS
         \<and> toLowerCase (pi_tokenB p) = toLowerCase tokenAddress)
      \<or> (toLowerCase (pi_tokenB p) = toLowerCase USDC_ADDRESS
         \<and> toLowerCase (pi_tokenA p) = toLowerCase tokenAddress))"

definition route_pool :: "pool_info \<Rightarrow> address \<Rightarrow> bool" where
  "route_pool p tokenAddress =
     (holds_token p tokenAddress
      \<and> toLowerCase (pi_tokenA p) \<noteq> toLowerCase USDC_ADDRESS
      \<and> toLowerCase (pi_tokenB p) \<noteq> toLowerCase USDC_ADDRESS)"

definition intermediate_of :: "pool_info \<Rightarrow> address \<Rightarrow> address" where
  "intermediate_of p tokenAddress =
     (if toLowerCase (pi_tokenA p) = toLowerCase tokenAddress
      then toLowerCase (pi_tokenB p) else toLowerCase (pi_tokenA p))"

definition ratio_against_intermediate :: "pool_info \<Rightarrow> address \<Rightarrow> real \<times> real \<Rightarrow> jsnum" where
  "ratio_against_intermediate p tokenAddress rs =
     (if toLowerCase (pi_tokenA p) = toLowerCase tokenAddress
      then js_div (snd rs) (fst rs) else js_div (fst rs) (snd rs))"

text \<open>The cyclic graph of the specification: pools A/B, B/C and C/A, none with USDC.\<close>

definition tokA :: address where "tokA = ''0x000000000000000000000000000000000000000a''"
definition tokB :: address where "tokB = ''0x000000000000000000000000000000000000000b''"
definition tokC :: address where "tokC = ''0x000000000000000000000000000000000000000c''"

definition cyclic_pools :: "pool_info list" where
  "cyclic_pools =
     [\<lparr>pi_tokenA = tokA, pi_tokenB = tokB, pi_tokenASymbol = ''A'', pi_tokenBSymbol = ''B'',
       pi_poolAddress = ''0x00000000000000000000000000000000000000ab''\<rparr>,
      \<lparr>pi_tokenA = tokB, pi_tokenB = tokC, pi_tokenASymbol = ''B'', pi_tokenBSymbol = ''C'',
       pi_poolAddress = ''0x00000000000000000000000000000000000000bc''\<rparr>,
      \<lparr>pi_tokenA = tokC, pi_tokenB = tokA, pi_tokenASymbol = ''C'', pi_tokenBSymbol = ''A'',
       pi_poolAddress = ''0x00000000000000000000000000000000000000ca''\<rparr>]"

text \<open>
  What the specification calls a pool pairing the token directly with the stable asset,
  on the token addresses the chain reports for the pool.
\<close>

definition direct_usdc_pair :: "chain \<Rightarrow> address \<Rightarrow> address \<Rightarrow> bool" where
  "direct_usdc_pair c tokenAddress poolAddress =
     (case pool_tokenA c poolAddress of
        None \<Rightarrow> False
      | Some tokenA \<Rightarrow>
          (case pool_tokenB c poolAddress of
             None \<Rightarrow> False
           | Some tokenB \<Rightarrow>
               (toLowerCase tokenA = toLowerCase USDC_ADDRESS
                  \<and> toLowerCase tokenB = toLowerCase tokenAddress)
               \<or> (toLowerCase tokenB = toLowerCase USDC_ADDRESS
                  \<and> toLowerCase tokenA = toLowerCase tokenAddress)))"

text \<open>
  A two-hop graph: the scenario pool \<open>P1\<close> (USDC/TKN, so TKN is worth 2 USD) and a second
  pool \<open>P2\<close> pairing TKN (300 units) with a further token TK2 (100 units), so that TK2
  is worth 3 TKN.
\<close>

definition TK2 :: address where
  "TK2 = ''0x8888888888888888888888888888888888888888''"

definition P2 :: address where
  "P2 = ''0x2222222222222222222222222222222222222222''"

definition twohop_chain :: chain where
  "twohop_chain =
     scenario_chain
       \<lparr>pool_tokenA := (\<lambda>p. if p = P1 then Some USDC_ADDRESS
                             else if p = P2 then Some TKN else None),
        pool_tokenB := (\<lambda>p. if p = P1 then Some TKN
                             else if p = P2 then Some TK2 else None),
        pool_reserveA := (\<lambda>p. if p = P1 then Some 1000000000
                               else if p = P2 then Some 300000000000000000000 else None),
        pool_reserveB := (\<lambda>p. if p = P1 then Some 500000000000000000000
                               else if p = P2 then Some 100000000000000000000 else None),
        erc20_balanceOf :=
          (\<lambda>t a. if a = P1 \<and> t = USDC_ADDRESS then Some 1000000000
                 else if a = P1 \<and> t = TKN then Some 500000000000000000000
                 else if a = P2 \<and> t = TKN then Some 300000000000000000000
                 else if a = P2 \<and> t = TK2 then Some 100000000000000000000
                 else None)\<rparr>"

definition hop1 :: pool_info where
  "hop1 = \<lparr>pi_tokenA = USDC_ADDRESS, pi_tokenB = TKN, pi_tokenASymbol = ''USDC'',
            pi_tokenBSymbol = ''TKN'', pi_poolAddress = P1\<rparr>"

definition hop2 :: pool_info where
  "hop2 = \<lparr>pi_tokenA = TKN, pi_tokenB = TK2, pi_tokenASymbol = ''TKN'',
            pi_tokenBSymbol = ''TK2'', pi_poolAddress = P2\<rparr>"

definition twohop_pools :: "pool_info list" where
  "twohop_pools = [hop1, hop2]"

text \<open>
  A cycle in which the swap-log query and the balance reads throw and every store write
  throws, started with the cursor at block 90 while the head block is 100.
\<close>

definition failing_chain :: chain where
  "failing_chain =
     scenario_chain\<lparr>erc20_balanceOf := (\<lambda>t a. None), getLogs_Swap := (\<lambda>p f t. None)\<rparr>"

definition all_thrown :: store_env where
  "all_thrown =
     \<lparr>swap_upsert_outcome = (\<lambda>h. Thrown), pool_upsert_outcome = (\<lambda>p. Thrown),
      pool_delete_outcome = (\<lambda>p. Thrown), price_select_outcome = (\<lambda>p. Thrown),
      price_insert_outcome = (\<lambda>p. Thrown), clock = (\<lambda>i. 1700000000000)\<rparr>"

definition state_at_90 :: indexer_state where
  "state_at_90 = \<lparr>knownPools = {}, lastProcessedBlock = Some 90\<rparr>"












text \<open>
  A store client as \<open>all_done\<close>, ten seconds later, once with a throttle select that
  returns an error object and once with one that succeeds.
\<close>

definition select_failing :: store_env where
  "select_failing =
     all_done\<lparr>price_select_outcome := (\<lambda>p. Failed), clock := (\<lambda>i. 1700000010000)\<rparr>"

definition ten_seconds_later :: store_env where
  "ten_seconds_later = all_done\<lparr>clock := (\<lambda>i. 1700000010000)\<rparr>"

section \<open>Event extractor: direction of a swap record\<close>

lemma legs_of_record:
  "legs_of \<lparr>se_poolAddress = p, se_tokenIn = i, se_tokenOut = out, se_amountIn = ai,
             se_amountOut = ao, se_timestamp = ts, se_txHash = h, se_blockNumber = b\<rparr>
     = (i, out, ai, ao, h)"
  by (simp add: legs_of_def)

lemma swap_loop_Cons:
  assumes "getBlock_timestamp c (log_blockNumber l) = Some ts"
    and "swap_loop c pool tA tB ls = Some evs"
  shows "\<exists>evs'. swap_loop c pool tA tB (l # ls) = Some evs'
           \<and> map legs_of evs'
               = (case spec_swap_leg tA tB l of None \<Rightarrow> [] | Some x \<Rightarrow> [x]) @ map legs_of evs"
  using assms
  by (auto simp: spec_swap_leg_def swap_direction_def legs_of_record split: option.splits)

lemma swap_loop_legs:
  "\<forall>l \<in> set logs. getBlock_timestamp c (log_blockNumber l) \<noteq> None \<Longrightarrow>
   \<exists>evs. swap_loop c pool tA tB logs = Some evs
         \<and> map legs_of evs = List.map_filter (spec_swap_leg tA tB) logs"
proof (induction logs)
  case Nil
  show ?case by simp
next
  case (Cons l ls)
  then obtain evs where evs: "swap_loop c pool tA tB ls = Some evs"
    "map legs_of evs = List.map_filter (spec_swap_leg tA tB) ls" by auto
  from Cons.prems obtain ts where ts: "getBlock_timestamp c (log_blockNumber l) = Some ts"
    by auto
  from swap_loop_Cons [OF ts evs(1)] obtain evs' where
    "swap_loop c pool tA tB (l # ls) = Some evs'"
    "map legs_of evs'
       = (case spec_swap_leg tA tB l of None \<Rightarrow> [] | Some x \<Rightarrow> [x]) @ map legs_of evs"
    by blast
  with evs(2) show ?case by (cases "spec_swap_leg tA tB l") simp_all
qed

text \<open>
  C6. When the log query, the two token reads and the block reads succeed, the records
  \<open>processSwapEvents\<close> returns are, in log order, exactly one record per log with a nonzero
  in-amount: tokenIn = tokenA and tokenOut = tokenB when the tokenA-in amount is nonzero,
  tokenIn = tokenB and tokenOut = tokenA when it is zero and the tokenB-in amount is
  nonzero, and no record for a log with both in-amounts zero.
\<close>

theorem processSwapEvents_direction:
  assumes "getLogs_Swap c pool fromBlock toBlock = Some logs"
    and "pool_tokenA c pool = Some tA" and "pool_tokenB c pool = Some tB"
    and "\<forall>l \<in> set logs. getBlock_timestamp c (log_blockNumber l) \<noteq> None"
  shows "map legs_of (processSwapEvents c pool fromBlock toBlock)
           = List.map_filter (spec_swap_leg tA tB) logs"
  using swap_loop_legs [OF assms(4), of pool tA tB] assms(1-3)
  by (auto simp: processSwapEvents_def)

theorem processSwapEvents_direction_witness:
  "map legs_of (processSwapEvents ex_swap_chain ''0xP1'' 1 10)
     = [(''0xAA'', ''0xBB'', 5, 9, ''0xa1''), (''0xBB'', ''0xAA'', 4, 2, ''0xb2'')]"
  using processSwapEvents_direction
          [of ex_swap_chain "''0xP1''" 1 10 ex_logs "''0xAA''" "''0xBB''"]
  by (simp add: ex_swap_chain_def silent_chain_def ex_logs_def spec_swap_leg_def orZero_def)

section \<open>Store writer: swap events are idempotent on the transaction hash\<close>

lemma upsert_swap_keys:
  "map sr_tx_hash (upsert_swap r t) =
     (if sr_tx_hash r \<in> set (map sr_tx_hash t) then map sr_tx_hash t
      else map sr_tx_hash t @ [sr_tx_hash r])"
  by (induction t) auto

lemma upsert_swap_distinct:
  "distinct (map sr_tx_hash t) \<Longrightarrow> distinct (map sr_tx_hash (upsert_swap r t))"
  by (simp add: upsert_swap_keys)

lemma upsert_swap_idem: "upsert_swap r (upsert_swap r t) = upsert_swap r t"
  by (induction t) auto

lemma upsert_swap_filter:
  "distinct (map sr_tx_hash t) \<Longrightarrow>
   filter (\<lambda>x. sr_tx_hash x = sr_tx_hash r) (upsert_swap r t) = [r]"
proof (induction t)
  case Nil
  show ?case by simp
next
  case (Cons x xs)
  show ?case
  proof (cases "sr_tx_hash x = sr_tx_hash r")
    case True
    with Cons.prems have "\<forall>y \<in> set xs. sr_tx_hash y \<noteq> sr_tx_hash r"
      by (metis distinct.simps(2) image_eqI list.simps(9) set_map)
    hence "filter (\<lambda>y. sr_tx_hash y = sr_tx_hash r) xs = []" by (simp add: filter_empty_conv)
    with True show ?thesis by simp
  next
    case False
    with Cons show ?thesis by simp
  qed
qed

lemma storeSwapEvents_loop_distinct:
  "distinct (map sr_tx_hash t) \<Longrightarrow> distinct (map sr_tx_hash (storeSwapEvents_loop env es t))"
  by (induction es arbitrary: t) (auto simp: upsert_swap_distinct split: outcome.splits)

lemma storeSwapEvents_loop_keys:
  "set (map sr_tx_hash t) \<subseteq> set (map sr_tx_hash (storeSwapEvents_loop env es t))"
proof (induction es arbitrary: t)
  case Nil
  show ?case by simp
next
  case (Cons e es)
  have "set (map sr_tx_hash t) \<subseteq> set (map sr_tx_hash (upsert_swap (swap_row_of e) t))"
    by (auto simp: upsert_swap_keys)
  with Cons [of "upsert_swap (swap_row_of e) t"] Cons [of t] show ?case
    by (cases "swap_upsert_outcome env (se_txHash e)") auto
qed

lemma distinct_filter_one:
  "distinct (map f xs) \<Longrightarrow> k \<in> set (map f xs) \<Longrightarrow> length (filter (\<lambda>x. f x = k) xs) = 1"
proof (induction xs)
  case Nil
  then show ?case by simp
next
  case (Cons x xs)
  show ?case
  proof (cases "f x = k")
    case True
    with Cons.prems have "\<forall>y \<in> set xs. f y \<noteq> k"
      by (metis distinct.simps(2) image_eqI list.simps(9) set_map)
    hence "filter (\<lambda>y. f y = k) xs = []" by (simp add: filter_empty_conv)
    with True show ?thesis by simp
  next
    case False
    with Cons show ?thesis by auto
  qed
qed

text \<open>
  C5. On a \<open>swap_events\<close> table that satisfies its \<open>UNIQUE(tx_hash)\<close> constraint, storing
  the same swap event a second time leaves the store exactly as it was after the first
  time, with exactly one row for its transaction hash; and whatever later batches are
  stored under whatever store behaviour, the table keeps exactly one row for that hash.
\<close>

theorem storeSwapEvents_idempotent:
  assumes "distinct (map sr_tx_hash (swap_events st))"
    and "swap_upsert_outcome env (se_txHash e) = Done"
  shows "storeSwapEvents env [e] (storeSwapEvents env [e] st) = storeSwapEvents env [e] st
       \<and> filter (\<lambda>r. sr_tx_hash r = se_txHash e)
            (swap_events (storeSwapEvents env [e] (storeSwapEvents env [e] st))) = [swap_row_of e]
       \<and> (\<forall>env' es. length (filter (\<lambda>r. sr_tx_hash r = se_txHash e)
            (swap_events (storeSwapEvents env' es (storeSwapEvents env [e] st)))) = 1)"
proof -
  have key: "sr_tx_hash (swap_row_of e) = se_txHash e" by (simp add: swap_row_of_def)
  have once: "swap_events (storeSwapEvents env [e] st) = upsert_swap (swap_row_of e) (swap_events st)"
    using assms(2) by (simp add: storeSwapEvents_def)
  have idem: "storeSwapEvents env [e] (storeSwapEvents env [e] st) = storeSwapEvents env [e] st"
    using assms(2) by (simp add: storeSwapEvents_def upsert_swap_idem)
  have one: "filter (\<lambda>r. sr_tx_hash r = se_txHash e) (swap_events (storeSwapEvents env [e] st))
               = [swap_row_of e]"
    using upsert_swap_filter [OF assms(1), of "swap_row_of e"] by (simp add: once key)
  have d1: "distinct (map sr_tx_hash (swap_events (storeSwapEvents env [e] st)))"
    using assms(1) by (simp add: once upsert_swap_distinct)
  have in1: "se_txHash e \<in> set (map sr_tx_hash (swap_events (storeSwapEvents env [e] st)))"
    by (simp add: once upsert_swap_keys key)
  have later: "length (filter (\<lambda>r. sr_tx_hash r = se_txHash e)
            (swap_events (storeSwapEvents env' es (storeSwapEvents env [e] st)))) = 1" for env' es
  proof (cases "es = []")
    case True
    then show ?thesis using one by (simp add: storeSwapEvents_def)
  next
    case False
    let ?t = "swap_events (storeSwapEvents env [e] st)"
    have "distinct (map sr_tx_hash (storeSwapEvents_loop env' es ?t))"
      using d1 by (rule storeSwapEvents_loop_distinct)
    moreover have "se_txHash e \<in> set (map sr_tx_hash (storeSwapEvents_loop env' es ?t))"
      using in1 storeSwapEvents_loop_keys [of ?t env' es] by blast
    ultimately show ?thesis
      using False distinct_filter_one [of sr_tx_hash "storeSwapEvents_loop env' es ?t" "se_txHash e"]
      by (simp add: storeSwapEvents_def)
  qed
  from idem one later show ?thesis by simp
qed

theorem storeSwapEvents_idempotent_witness:
  "storeSwapEvents all_done [ex_event] (storeSwapEvents all_done [ex_event] ex_store)
     = storeSwapEvents all_done [ex_event] ex_store
   \<and> filter (\<lambda>r. sr_tx_hash r = ''0xabc'')
        (swap_events (storeSwapEvents all_done [ex_event]
                        (storeSwapEvents all_done [ex_event] ex_store)))
       = [swap_row_of ex_event]"
proof -
  have h1: "distinct (map sr_tx_hash (swap_events ex_store))" by (simp add: ex_store_def)
  have h2: "swap_upsert_outcome all_done (se_txHash ex_event) = Done"
    by (simp add: all_done_def)
  have h3: "se_txHash ex_event = ''0xabc''" by (simp add: ex_event_def)
  from storeSwapEvents_idempotent [OF h1 h2] show ?thesis unfolding h3 by blast
qed

section \<open>Price snapshots: the 60 second throttle\<close>

lemma throttled_snoc:
  "throttled (ph @ [r]) \<longleftrightarrow>
     throttled ph \<and> (\<forall>x \<in> set ph. ph_pool_address x = ph_pool_address r
          \<longrightarrow> \<bar>int (ph_timestamp x) - int (ph_timestamp r)\<bar> \<ge> 60000)"
  by (induction ph) (auto simp: abs_minus_commute)

lemma fold_max_ge: "x \<in> set (t # ts) \<Longrightarrow> x \<le> fold max ts (t::nat)"
proof (induction ts arbitrary: t x)
  case Nil
  then show ?case by simp
next
  case (Cons a ts)
  show ?case
  proof (cases "x \<in> set ts")
    case True
    then have "x \<in> set (max a t # ts)" by simp
    from Cons.IH [OF this] show ?thesis by simp
  next
    case False
    with Cons.prems have "x \<le> max a t" by auto
    moreover have "max a t \<le> fold max ts (max a t)" by (rule Cons.IH) simp
    ultimately show ?thesis by (simp del: max.bounded_iff)
  qed
qed

lemma last_snapshot_None:
  "last_snapshot key ph = None \<Longrightarrow> \<forall>x \<in> set ph. ph_pool_address x \<noteq> key"
  by (auto simp: last_snapshot_def filter_empty_conv split: list.splits)

lemma last_snapshot_Some:
  assumes "last_snapshot key ph = Some t" and "x \<in> set ph" and "ph_pool_address x = key"
  shows "ph_timestamp x \<le> t"
proof -
  let ?ts = "map ph_timestamp (filter (\<lambda>r. ph_pool_address r = key) ph)"
  from assms(2,3) have mem: "ph_timestamp x \<in> set ?ts" by auto
  from assms(1) obtain t0 ts where ts: "?ts = t0 # ts" "t = fold max ts t0"
    by (auto simp: last_snapshot_def split: list.splits)
  from mem ts(1) have "ph_timestamp x \<in> set (t0 # ts)" by simp
  from fold_max_ge [OF this] ts(2) show ?thesis by simp
qed

lemma storePriceHistory_gate:
  assumes "storePriceHistory env now pool tA tB iA iB rA rB ph \<noteq> ph"
    and "price_select_outcome env (toLowerCase pool) \<noteq> Failed"
    and "x \<in> set ph" and "ph_pool_address x = toLowerCase pool"
  shows "int now - int (ph_timestamp x) > 60000"
proof -
  from assms(1,2) have sel: "price_select_outcome env (toLowerCase pool) = Done"
    by (cases "price_select_outcome env (toLowerCase pool)")
       (simp_all add: storePriceHistory_def Let_def)
  show ?thesis
  proof (cases "last_snapshot (toLowerCase pool) ph")
    case None
    from last_snapshot_None [OF None] assms(3,4) show ?thesis by blast
  next
    case (Some t)
    from assms(1) Some sel have "int now - int t > 60000"
      by (auto simp: storePriceHistory_def Let_def split: if_splits)
    moreover from last_snapshot_Some [OF Some assms(3,4)] have "ph_timestamp x \<le> t" .
    ultimately show ?thesis by linarith
  qed
qed

lemma storePriceHistory_cases:
  "storePriceHistory env now pool tA tB iA iB rA rB ph = ph
   \<or> (\<exists>r. storePriceHistory env now pool tA tB iA iB rA rB ph = ph @ [r]
          \<and> ph_pool_address r = toLowerCase pool \<and> ph_timestamp r = now
          \<and> ph_price_a_per_b r = js_div (formatted rB (decimals iB)) (formatted rA (decimals iA))
          \<and> ph_price_b_per_a r = js_div (formatted rA (decimals iA)) (formatted rB (decimals iB)))"
  by (simp add: storePriceHistory_def Let_def insert_price_def split: option.splits outcome.splits)

lemma storePriceHistory_throttled:
  assumes "throttled ph" and "price_select_outcome env (toLowerCase pool) \<noteq> Failed"
  shows "throttled (storePriceHistory env now pool tA tB iA iB rA rB ph)"
proof (cases "storePriceHistory env now pool tA tB iA iB rA rB ph = ph")
  case True
  with assms show ?thesis by simp
next
  case False
  with storePriceHistory_cases [of env now pool tA tB iA iB rA rB ph]
  obtain r where r: "storePriceHistory env now pool tA tB iA iB rA rB ph = ph @ [r]"
    "ph_pool_address r = toLowerCase pool" "ph_timestamp r = now" by blast
  have "\<bar>int (ph_timestamp x) - int (ph_timestamp r)\<bar> \<ge> 60000"
    if "x \<in> set ph" "ph_pool_address x = ph_pool_address r" for x
    using storePriceHistory_gate [OF False assms(2) that(1)] that(2) r(2,3) by simp
  with assms(1) r(1) show ?thesis by (simp add: throttled_snoc)
qed

lemma storePool_cases:
  "storePool c env pools now p st = st
   \<or> (\<exists>tA tB rA rB.
         pool_tokenA c p = Some tA \<and> pool_tokenB c p = Some tB
       \<and> erc20_balanceOf c tA p = Some rA \<and> erc20_balanceOf c tB p = Some rB
       \<and> formatted rA (decimals (getTokenInfo c tA)) > 1 / 1000000
       \<and> formatted rB (decimals (getTokenInfo c tB)) > 1 / 1000000
       \<and> storePool c env pools now p st =
           st\<lparr>pools_tbl := upsert_pool (pool_row_of c pools now p tA tB rA rB) (pools_tbl st),
              price_history := storePriceHistory env now p tA tB (getTokenInfo c tA)
                                 (getTokenInfo c tB) rA rB (price_history st)\<rparr>)
   \<or> storePool c env pools now p st
        = st\<lparr>pools_tbl := delete_pool (toLowerCase p) (pools_tbl st)\<rparr>"
  by (simp add: storePool_def split: option.splits outcome.splits)

text \<open>
  As long as no throttle select returns an error object, the 60 seconds between the
  snapshots of a pool are kept by every iteration, cycle and run.
\<close>

lemma storePool_throttled:
  assumes "throttled (price_history st)" and "\<And>k. price_select_outcome env k \<noteq> Failed"
  shows "throttled (price_history (storePool c env pools now p st))"
  using storePool_cases [of c env pools now p st] assms
  by (auto simp: storePriceHistory_throttled)

lemma storePoolData_loop_throttled:
  assumes "throttled (price_history st)" and "\<And>k. price_select_outcome env k \<noteq> Failed"
  shows "throttled (price_history (storePoolData_loop c env pools i rest st))"
  using assms(1)
proof (induction rest arbitrary: i st)
  case Nil
  then show ?case by simp
next
  case (Cons q qs)
  from Cons.IH [OF storePool_throttled [OF Cons.prems assms(2)]] show ?case by simp
qed

lemma storeSwapEvents_price_history:
  "price_history (storeSwapEvents env es st) = price_history st"
  by (simp add: storeSwapEvents_def)

lemma persist_throttled:
  assumes "throttled (price_history st)" and "\<And>k. price_select_outcome env k \<noteq> Failed"
  shows "throttled (price_history (persist c env pools es st))"
  using assms(1) storePoolData_loop_throttled [OF _ assms(2)]
  by (simp add: persist_def storePoolData_def storeSwapEvents_price_history)

lemma index_throttled:
  assumes "throttled (price_history (snd s))" and "\<And>k. price_select_outcome env k \<noteq> Failed"
  shows "throttled (price_history (fst (snd (index c env s))))"
  using assms(1) persist_throttled [OF assms(1) assms(2)]
  by (simp add: index_def Let_def split: option.splits)

lemma run_throttled:
  assumes "throttled (price_history (snd s))"
    and "\<forall>cy \<in> set cycles. \<forall>k. price_select_outcome (snd cy) k \<noteq> Failed"
  shows "throttled (price_history (snd (run cycles s)))"
  using assms
proof (induction cycles arbitrary: s)
  case Nil
  then show ?case by simp
next
  case (Cons cy cycles)
  obtain c env where cy: "cy = (c, env)" by (cases cy)
  obtain s' st' r where ix: "index c env s = (s', st', r)" by (cases "index c env s")
  from Cons.prems(2) cy have ok: "\<And>k. price_select_outcome env k \<noteq> Failed" by simp
  from index_throttled [OF Cons.prems(1) ok, of c] ix
  have "throttled (price_history (snd (s', st')))" by simp
  moreover from Cons.prems(2)
  have "\<forall>cy \<in> set cycles. \<forall>k. price_select_outcome (snd cy) k \<noteq> Failed" by simp
  ultimately have "throttled (price_history (snd (run cycles (s', st'))))" by (rule Cons.IH)
  then show ?case by (simp add: cy ix)
qed

section \<open>The pools table: upsert or delete\<close>

lemma storePool_kept:
  assumes "getBlockNumber c = Some b"
    and "pool_tokenA c p = Some tA" and "pool_tokenB c p = Some tB"
    and "erc20_balanceOf c tA p = Some rA" and "erc20_balanceOf c tB p = Some rB"
    and "formatted rA (decimals (getTokenInfo c tA)) > 1 / 1000000
         \<and> formatted rB (decimals (getTokenInfo c tB)) > 1 / 1000000"
    and "pool_upsert_outcome env (toLowerCase p) = Done"
  shows "storePool c env pools now p st
           = st\<lparr>pools_tbl := upsert_pool (pool_row_of c pools now p tA tB rA rB) (pools_tbl st),
                price_history :=
                  storePriceHistory env now p tA tB (getTokenInfo c tA)
                    (getTokenInfo c tB) rA rB (price_history st)\<rparr>"
  using assms by (simp add: storePool_def)


lemma pool_row_of_fields:
  "pr_pool_address (pool_row_of c pools now p tA tB rA rB) = toLowerCase p"
  "pr_reserve_a (pool_row_of c pools now p tA tB rA rB) = rA"
  "pr_reserve_b (pool_row_of c pools now p tA tB rA rB) = rB"
  "pr_total_liquidity (pool_row_of c pools now p tA tB rA rB)
     = formatted rA (decimals (getTokenInfo c tA)) * getTokenPriceInUSD c tA pools
       + formatted rB (decimals (getTokenInfo c tB)) * getTokenPriceInUSD c tB pools"
  by (simp_all add: pool_row_of_def Let_def)
















lemma index_threw_store:
  assumes "snd (snd (index c env s)) = Threw"
  shows "fst (snd (index c env s)) = snd s"
proof (cases "getBlockNumber c")
  case None
  then show ?thesis by (simp add: index_def Let_def)
next
  case (Some h)
  let ?b = "cursor_or_lookback (lastProcessedBlock (fst s)) h"
  show ?thesis
  proof (cases "?b + 1 \<le> h")
    case True
    show ?thesis
    proof (cases "getLogs_PoolCreated c (?b + 1) h")
      case None
      with \<open>getBlockNumber c = Some h\<close> True show ?thesis by (simp add: index_def Let_def)
    next
      case (Some logs)
      with assms \<open>getBlockNumber c = Some h\<close> True show ?thesis by (simp add: index_def Let_def)
    qed
  next
    case False
    with assms Some show ?thesis by (simp add: index_def Let_def)
  qed
qed


section \<open>The scenario pool, evaluated\<close>

lemma lower_digits:
  "toLowerCase USDC_ADDRESS = USDC_ADDRESS" "toLowerCase TKN = TKN" "toLowerCase P1 = P1"
  by (simp_all add: toLowerCase_def lower_char_def USDC_ADDRESS_def TKN_def P1_def)

lemma TKN_not_USDC: "TKN \<noteq> USDC_ADDRESS"
  by (simp add: TKN_def USDC_ADDRESS_def)

lemma USDC_info: "getTokenInfo c USDC_ADDRESS = \<lparr>symbol = ''USDC'', decimals = 6\<rparr>"
  by (simp add: getTokenInfo_def lower_digits KNOWN_TOKENS_def)
     (simp add: toLowerCase_def lower_char_def USDC_ADDRESS_def)

lemma TKN_info: "getTokenInfo scenario_chain TKN = \<lparr>symbol = ''TKN'', decimals = 18\<rparr>"
  by (simp add: getTokenInfo_def lower_digits KNOWN_TOKENS_def scenario_chain_def)
     (simp add: toLowerCase_def lower_char_def TKN_def)

lemma TKN_info_drifted: "getTokenInfo drifted_chain TKN = getTokenInfo scenario_chain TKN"
  by (simp add: getTokenInfo_def drifted_chain_def cong: option.case_cong)

lemma scenario_reads:
  "getBlockNumber scenario_chain = Some 100"
  "pool_tokenA scenario_chain P1 = Some USDC_ADDRESS"
  "pool_tokenB scenario_chain P1 = Some TKN"
  "erc20_balanceOf scenario_chain USDC_ADDRESS P1 = Some 1000000000"
  "erc20_balanceOf scenario_chain TKN P1 = Some 500000000000000000000"
  by (simp_all add: scenario_chain_def TKN_not_USDC)

lemma drifted_reads:
  "getBlockNumber drifted_chain = Some 100"
  "pool_tokenA drifted_chain P1 = Some USDC_ADDRESS"
  "pool_tokenB drifted_chain P1 = Some TKN"
  "erc20_balanceOf drifted_chain USDC_ADDRESS P1 = Some 1000000000"
  "erc20_balanceOf drifted_chain TKN P1 = Some 500000000000000000000"
  by (simp_all add: drifted_chain_def scenario_chain_def TKN_not_USDC)


lemma stored_counters:
  "pool_reserveA scenario_chain P1 = Some 1000000000"
  "pool_reserveB scenario_chain P1 = Some 500000000000000000000"
  "pool_reserveA drifted_chain P1 = Some 1000000000"
  "pool_reserveB drifted_chain P1 = Some 250000000000000000000"
  by (simp_all add: drifted_chain_def scenario_chain_def)

lemma price_scenario: "getTokenPriceInUSD scenario_chain TKN [P1] = 2"
  by (simp add: getTokenPriceInUSD_def lower_digits TKN_not_USDC scenario_reads
        stored_counters TKN_info formatted_def)

lemma price_drifted: "getTokenPriceInUSD drifted_chain TKN [P1] = 4"
  by (simp add: getTokenPriceInUSD_def lower_digits TKN_not_USDC drifted_reads
        stored_counters TKN_info TKN_info_drifted formatted_def)

lemma price_USDC: "getTokenPriceInUSD c USDC_ADDRESS pools = 1"
  by (simp add: getTokenPriceInUSD_def)

lemma all_done_outcomes:
  "pool_upsert_outcome all_done k = Done" "pool_delete_outcome all_done k = Done"
  "price_insert_outcome all_done k = Done" "clock all_done i = 1700000000000"
  "price_select_outcome all_done k = Done"
  by (simp_all add: all_done_def)

lemma scenario_above_dust:
  "formatted 1000000000 (decimals (getTokenInfo c USDC_ADDRESS)) > 1 / 1000000
   \<and> formatted 500000000000000000000 (decimals (getTokenInfo scenario_chain TKN)) > 1 / 1000000"
  by (simp add: USDC_info TKN_info formatted_def)

lemma scenario_storePool:
  "storePool scenario_chain all_done [P1] now P1 st
     = st\<lparr>pools_tbl := upsert_pool
             (pool_row_of scenario_chain [P1] now P1 USDC_ADDRESS TKN 1000000000 500000000000000000000)
             (pools_tbl st),
          price_history :=
            storePriceHistory all_done now P1 USDC_ADDRESS TKN (getTokenInfo scenario_chain USDC_ADDRESS)
              (getTokenInfo scenario_chain TKN) 1000000000 500000000000000000000 (price_history st)\<rparr>"
  by (rule storePool_kept [OF scenario_reads scenario_above_dust all_done_outcomes(1)])

lemma drifted_storePool:
  "storePool drifted_chain all_done [P1] now P1 st
     = st\<lparr>pools_tbl := upsert_pool
             (pool_row_of drifted_chain [P1] now P1 USDC_ADDRESS TKN 1000000000 500000000000000000000)
             (pools_tbl st),
          price_history :=
            storePriceHistory all_done now P1 USDC_ADDRESS TKN (getTokenInfo drifted_chain USDC_ADDRESS)
              (getTokenInfo drifted_chain TKN) 1000000000 500000000000000000000 (price_history st)\<rparr>"
  using scenario_above_dust [of drifted_chain]
  by (intro storePool_kept [OF drifted_reads _ all_done_outcomes(1)]) (simp add: TKN_info_drifted)

text \<open>A cycle on the scenario chain: one pool, no swap, no new pool.\<close>

lemma scenario_fetch: "fetchAllPools scenario_chain known = ([P1], insert P1 known)"
  by (simp add: fetchAllPools_def scenario_chain_def fetch_step_def lower_digits)
     (simp add: P1_def ZERO_ADDRESS_def)

lemma scenario_no_swaps: "processSwapEvents scenario_chain p f t = []"
  by (simp add: processSwapEvents_def scenario_chain_def)

lemma scenario_no_new_pools: "getLogs_PoolCreated scenario_chain f t = Some []"
  by (simp add: scenario_chain_def)



lemma scenario_index_store:
  "fst (snd (index scenario_chain env (s, st)))
     = storePool scenario_chain env [P1] (clock env 0) P1 st"
  by (simp add: index_def Let_def scenario_reads scenario_fetch scenario_no_swaps
        scenario_no_new_pools persist_def storePoolData_def)

lemma run_Cons:
  "run ((c, env) # cycles) s = run cycles (fst (index c env s), fst (snd (index c env s)))"
  by (simp split: prod.splits)

lemma scenario_run2:
  "snd (run [(scenario_chain, e1), (scenario_chain, e2)] (s, st))
     = storePool scenario_chain e2 [P1] (clock e2 0) P1
         (storePool scenario_chain e1 [P1] (clock e1 0) P1 st)"
  by (simp add: run_Cons scenario_index_store del: run.simps(2))

section \<open>Reserve sources\<close>

text \<open>
  C1. The balances of \<open>scenario_chain\<close> and \<open>drifted_chain\<close> are the same and only the
  pool contract's stored \<open>reserveB\<close> counter differs; the indexer's price of the token is 2
  on the first and 4 on the second, and the \<open>total_liquidity\<close> it stores for the pool is
  2000 on the first and 3000 on the second: the price oracle reads the stored counters.
\<close>

theorem indexer_oracle_reads_stored_counters:
  "erc20_balanceOf drifted_chain = erc20_balanceOf scenario_chain
   \<and> getTokenPriceInUSD scenario_chain TKN [P1] = 2
   \<and> getTokenPriceInUSD drifted_chain TKN [P1] = 4
   \<and> map pr_total_liquidity (pool_rows P1 (storePoolData scenario_chain all_done [P1] empty_store)) = [2000]
   \<and> map pr_total_liquidity (pool_rows P1 (storePoolData drifted_chain all_done [P1] empty_store)) = [3000]"
proof -
  have a: "erc20_balanceOf drifted_chain = erc20_balanceOf scenario_chain"
    by (simp add: drifted_chain_def)
  have b: "map pr_total_liquidity (pool_rows P1 (storePoolData scenario_chain all_done [P1] empty_store)) = [2000]"
    by (simp add: storePoolData_def scenario_storePool pool_rows_def empty_store_def
          pool_row_of_fields lower_digits price_scenario price_USDC USDC_info TKN_info formatted_def)
  have c: "map pr_total_liquidity (pool_rows P1 (storePoolData drifted_chain all_done [P1] empty_store)) = [3000]"
    by (simp add: storePoolData_def drifted_storePool pool_rows_def empty_store_def
          pool_row_of_fields lower_digits price_drifted price_USDC USDC_info TKN_info
          TKN_info_drifted formatted_def)
  from a b c price_scenario price_drifted show ?thesis by simp
qed


section \<open>The pools table on the scenario pool\<close>

lemma P1_in: "P1 \<in> set [P1]" "distinct (map toLowerCase [P1])"
  by simp_all




section \<open>Price snapshots: finite and positive ratios\<close>

lemma js_div_positive:
  "a > 0 \<Longrightarrow> b > 0 \<Longrightarrow> js_div a b = Fin (a / b) \<and> finite_positive (js_div a b)"
  by (simp add: js_div_def)

lemma storePool_price_history_cases:
  "price_history (storePool c env pools now p st) = price_history st
   \<or> (\<exists>tA tB rA rB.
         pool_tokenA c p = Some tA \<and> pool_tokenB c p = Some tB
       \<and> erc20_balanceOf c tA p = Some rA \<and> erc20_balanceOf c tB p = Some rB
       \<and> formatted rA (decimals (getTokenInfo c tA)) > 1 / 1000000
       \<and> formatted rB (decimals (getTokenInfo c tB)) > 1 / 1000000
       \<and> price_history (storePool c env pools now p st)
           = storePriceHistory env now p tA tB (getTokenInfo c tA) (getTokenInfo c tB)
               rA rB (price_history st))"
proof -
  from storePool_cases [of c env pools now p st] show ?thesis
  proof (elim disjE exE conjE)
    assume "storePool c env pools now p st = st"
    then show ?thesis by simp
  next
    fix tA tB rA rB
    assume r: "pool_tokenA c p = Some tA" "pool_tokenB c p = Some tB"
      "erc20_balanceOf c tA p = Some rA" "erc20_balanceOf c tB p = Some rB"
      "formatted rA (decimals (getTokenInfo c tA)) > 1 / 1000000"
      "formatted rB (decimals (getTokenInfo c tB)) > 1 / 1000000"
    assume "storePool c env pools now p st =
           st\<lparr>pools_tbl := upsert_pool (pool_row_of c pools now p tA tB rA rB) (pools_tbl st),
              price_history := storePriceHistory env now p tA tB (getTokenInfo c tA)
                                 (getTokenInfo c tB) rA rB (price_history st)\<rparr>"
    then have "price_history (storePool c env pools now p st)
           = storePriceHistory env now p tA tB (getTokenInfo c tA) (getTokenInfo c tB)
               rA rB (price_history st)" by simp
    with r show ?thesis by blast
  next
    assume "storePool c env pools now p st
              = st\<lparr>pools_tbl := delete_pool (toLowerCase p) (pools_tbl st)\<rparr>"
    then show ?thesis by simp
  qed
qed

lemma storePool_new_price_row:
  assumes "r \<in> set (price_history (storePool c env pools now p st))"
    and "r \<notin> set (price_history st)"
  shows "\<exists>tA tB rA rB.
           pool_tokenA c p = Some tA \<and> pool_tokenB c p = Some tB
         \<and> erc20_balanceOf c tA p = Some rA \<and> erc20_balanceOf c tB p = Some rB
         \<and> formatted rA (decimals (getTokenInfo c tA)) > 1 / 1000000
         \<and> formatted rB (decimals (getTokenInfo c tB)) > 1 / 1000000
         \<and> ph_price_a_per_b r
             = Fin (formatted rB (decimals (getTokenInfo c tB))
                    / formatted rA (decimals (getTokenInfo c tA)))
         \<and> ph_price_b_per_a r
             = Fin (formatted rA (decimals (getTokenInfo c tA))
                    / formatted rB (decimals (getTokenInfo c tB)))
         \<and> finite_positive (ph_price_a_per_b r) \<and> finite_positive (ph_price_b_per_a r)"
proof -
  from assms have neq: "price_history (storePool c env pools now p st) \<noteq> price_history st"
    by auto
  with storePool_price_history_cases [of c env pools now p st]
  obtain tA tB rA rB where reads:
    "pool_tokenA c p = Some tA" "pool_tokenB c p = Some tB"
    "erc20_balanceOf c tA p = Some rA" "erc20_balanceOf c tB p = Some rB"
    and above: "formatted rA (decimals (getTokenInfo c tA)) > 1 / 1000000"
      "formatted rB (decimals (getTokenInfo c tB)) > 1 / 1000000"
    and ph: "price_history (storePool c env pools now p st)
               = storePriceHistory env now p tA tB (getTokenInfo c tA) (getTokenInfo c tB)
                   rA rB (price_history st)"
    by blast
  let ?fA = "formatted rA (decimals (getTokenInfo c tA))"
  let ?fB = "formatted rB (decimals (getTokenInfo c tB))"
  from above have pos: "?fA > 0" "?fB > 0" by simp_all
  from neq ph storePriceHistory_cases
         [of env now p tA tB "getTokenInfo c tA" "getTokenInfo c tB" rA rB "price_history st"]
  obtain r' where r': "price_history (storePool c env pools now p st) = price_history st @ [r']"
    "ph_price_a_per_b r' = js_div ?fB ?fA" "ph_price_b_per_a r' = js_div ?fA ?fB"
    by (metis (no_types, lifting))
  from assms r'(1) have "r = r'" by simp
  from pos have quot: "?fB / ?fA > 0" "?fA / ?fB > 0" by simp_all
  from \<open>r = r'\<close> r'(2,3) pos quot
  have prices: "ph_price_a_per_b r = Fin (?fB / ?fA)" "ph_price_b_per_a r = Fin (?fA / ?fB)"
    "finite_positive (ph_price_a_per_b r)" "finite_positive (ph_price_b_per_a r)"
    by (simp_all add: js_div_def)
  from reads above prices show ?thesis by blast
qed

lemma storePool_prices_positive:
  assumes "positive_prices (price_history st)"
  shows "positive_prices (price_history (storePool c env pools now p st))"
  unfolding positive_prices_def
proof
  fix x
  assume x: "x \<in> set (price_history (storePool c env pools now p st))"
  show "finite_positive (ph_price_a_per_b x) \<and> finite_positive (ph_price_b_per_a x)"
  proof (cases "x \<in> set (price_history st)")
    case True
    with assms show ?thesis by (simp add: positive_prices_def)
  next
    case False
    from storePool_new_price_row [OF x False] show ?thesis
      by (elim exE conjE) (rule conjI)
  qed
qed

lemma storePoolData_loop_prices_positive:
  "positive_prices (price_history st) \<Longrightarrow>
   positive_prices (price_history (storePoolData_loop c env pools i rest st))"
  by (induction rest arbitrary: i st) (simp_all add: storePool_prices_positive)

lemma persist_prices_positive:
  "positive_prices (price_history st) \<Longrightarrow>
   positive_prices (price_history (persist c env pools es st))"
  by (simp add: persist_def storePoolData_def storePoolData_loop_prices_positive
        storeSwapEvents_price_history)

lemma index_prices_positive:
  "positive_prices (price_history (snd s)) \<Longrightarrow>
   positive_prices (price_history (fst (snd (index c env s))))"
  by (simp add: index_def Let_def persist_prices_positive split: option.splits)

lemma run_prices_positive:
  "positive_prices (price_history (snd s)) \<Longrightarrow>
   positive_prices (price_history (snd (run cycles s)))"
proof (induction cycles arbitrary: s)
  case Nil
  then show ?case by simp
next
  case (Cons cy cycles)
  obtain c env where cy: "cy = (c, env)" by (cases cy)
  obtain s' st' r where ix: "index c env s = (s', st', r)" by (cases "index c env s")
  from index_prices_positive [OF Cons.prems, of c env] ix
  have "positive_prices (price_history (snd (s', st')))" by simp
  from Cons.IH [OF this] show ?case by (simp add: cy ix)
qed

section \<open>Price snapshots: the claims\<close>

lemma scenario_price_history:
  "price_history (storePool scenario_chain all_done [P1] 1700000000000 P1 empty_store)
     = [ex_price_row]"
  by (simp add: scenario_storePool empty_store_def storePriceHistory_def last_snapshot_def
        insert_price_def all_done_outcomes lower_digits USDC_info TKN_info js_div_def
        formatted_def ex_price_row_def)

text \<open>
  C10. A row that an iteration of \<open>storePoolData\<close> adds to \<open>price_history\<close> belongs to a
  pool whose two balance reads succeeded with both normalized reserves strictly above
  \<open>10^-6\<close>; its two prices are the quotients of the normalized reserves, no division by
  zero occurs, and both are finite and strictly positive. Hence every run of the indexer
  keeps a table of finite positive prices that way.
\<close>

theorem price_snapshot_only_above_dust:
  "(r \<in> set (price_history (storePool c env pools now p st)) \<and> r \<notin> set (price_history st)
      \<longrightarrow> (\<exists>tA tB rA rB.
             pool_tokenA c p = Some tA \<and> pool_tokenB c p = Some tB
           \<and> erc20_balanceOf c tA p = Some rA \<and> erc20_balanceOf c tB p = Some rB
           \<and> formatted rA (decimals (getTokenInfo c tA)) > 1 / 1000000
           \<and> formatted rB (decimals (getTokenInfo c tB)) > 1 / 1000000
           \<and> ph_price_a_per_b r
               = Fin (formatted rB (decimals (getTokenInfo c tB))
                      / formatted rA (decimals (getTokenInfo c tA)))
           \<and> ph_price_b_per_a r
               = Fin (formatted rA (decimals (getTokenInfo c tA))
                      / formatted rB (decimals (getTokenInfo c tB)))
           \<and> finite_positive (ph_price_a_per_b r) \<and> finite_positive (ph_price_b_per_a r)))
   \<and> (positive_prices (price_history st)
        \<longrightarrow> positive_prices (price_history (snd (run cycles (s, st)))))"
  using storePool_new_price_row [of r c env pools now p st]
        run_prices_positive [of "(s, st)" cycles]
  by simp

theorem price_snapshot_only_above_dust_witness:
  "ex_price_row \<in> set (price_history
       (storePool scenario_chain all_done [P1] 1700000000000 P1 empty_store))
   \<and> ex_price_row \<notin> set (price_history empty_store)
   \<and> finite_positive (ph_price_a_per_b ex_price_row)
   \<and> finite_positive (ph_price_b_per_a ex_price_row)
   \<and> positive_prices (price_history empty_store)
   \<and> positive_prices
        (price_history (snd (run [(scenario_chain, all_done)] (fresh_state, empty_store))))"
proof -
  have h1: "ex_price_row \<in> set (price_history
       (storePool scenario_chain all_done [P1] 1700000000000 P1 empty_store))"
    by (simp add: scenario_price_history)
  have h2: "ex_price_row \<notin> set (price_history empty_store)"
    by (simp add: empty_store_def)
  have h3: "positive_prices (price_history empty_store)"
    by (simp add: empty_store_def positive_prices_def)
  from price_snapshot_only_above_dust
         [of ex_price_row scenario_chain all_done "[P1]" 1700000000000 P1 empty_store
             "[(scenario_chain, all_done)]" fresh_state]
       h1 h2 h3
  show ?thesis by blast
qed

section \<open>Price snapshots: a throttle select that fails\<close>

lemma later_outcomes:
  "pool_upsert_outcome select_failing k = Done" "price_insert_outcome select_failing k = Done"
  "price_select_outcome select_failing k = Failed" "clock select_failing i = 1700000010000"
  "pool_upsert_outcome ten_seconds_later k = Done"
  "price_insert_outcome ten_seconds_later k = Done"
  "price_select_outcome ten_seconds_later k = Done"
  "clock ten_seconds_later i = 1700000010000"
  by (simp_all add: select_failing_def ten_seconds_later_def all_done_def)

lemma scenario_storePool_price_history:
  assumes "pool_upsert_outcome env (toLowerCase P1) = Done"
  shows "price_history (storePool scenario_chain env [P1] now P1 st)
           = storePriceHistory env now P1 USDC_ADDRESS TKN \<lparr>symbol = ''USDC'', decimals = 6\<rparr>
               \<lparr>symbol = ''TKN'', decimals = 18\<rparr> 1000000000 500000000000000000000
               (price_history st)"
  using storePool_kept [OF scenario_reads scenario_above_dust assms, of "[P1]" now st]
  by (simp add: USDC_info TKN_info)

lemma first_snapshot:
  "storePriceHistory all_done 1700000000000 P1 USDC_ADDRESS TKN \<lparr>symbol = ''USDC'', decimals = 6\<rparr>
     \<lparr>symbol = ''TKN'', decimals = 18\<rparr> 1000000000 500000000000000000000 [] = [ex_price_row]"
  by (simp add: storePriceHistory_def last_snapshot_def insert_price_def all_done_outcomes
        lower_digits js_div_def formatted_def ex_price_row_def)

lemma second_snapshot_select_failed:
  "storePriceHistory select_failing 1700000010000 P1 USDC_ADDRESS TKN
     \<lparr>symbol = ''USDC'', decimals = 6\<rparr> \<lparr>symbol = ''TKN'', decimals = 18\<rparr>
     1000000000 500000000000000000000 [ex_price_row]
   = [ex_price_row, ex_price_row\<lparr>ph_timestamp := 1700000010000\<rparr>]"
  by (simp add: storePriceHistory_def insert_price_def later_outcomes
        lower_digits js_div_def formatted_def ex_price_row_def)

lemma second_snapshot_select_done:
  "storePriceHistory ten_seconds_later 1700000010000 P1 USDC_ADDRESS TKN
     \<lparr>symbol = ''USDC'', decimals = 6\<rparr> \<lparr>symbol = ''TKN'', decimals = 18\<rparr>
     1000000000 500000000000000000000 [ex_price_row]
   = [ex_price_row]"
  by (simp add: storePriceHistory_def last_snapshot_def later_outcomes
        lower_digits ex_price_row_def)

text \<open>
  C7. The throttle does not hold in every run. \<open>storePriceHistory\<close> reads only \<open>data\<close> from
  the result of its select and never the error: when the select returns an error object,
  \<open>data\<close> is null and the snapshot is inserted as for a pool without any snapshot. Two
  cycles on the scenario pool, 10 seconds apart, the select of the second cycle failing,
  leave two snapshots of the pool whose timestamps are 10000 milliseconds apart; with a
  select that succeeds the second cycle inserts nothing.
\<close>

theorem snapshot_within_60s_after_failed_select:
  "price_select_outcome select_failing (toLowerCase P1) = Failed
   \<and> price_history
        (snd (run [(scenario_chain, all_done), (scenario_chain, select_failing)]
                (fresh_state, empty_store)))
       = [ex_price_row, ex_price_row\<lparr>ph_timestamp := 1700000010000\<rparr>]
   \<and> ph_pool_address ex_price_row = P1
   \<and> ph_timestamp ex_price_row = 1700000000000
   \<and> \<not> throttled (price_history
        (snd (run [(scenario_chain, all_done), (scenario_chain, select_failing)]
                (fresh_state, empty_store))))
   \<and> price_history
        (snd (run [(scenario_chain, all_done), (scenario_chain, ten_seconds_later)]
                (fresh_state, empty_store)))
       = [ex_price_row]"
proof -
  have u: "pool_upsert_outcome all_done (toLowerCase P1) = Done"
    "pool_upsert_outcome select_failing (toLowerCase P1) = Done"
    "pool_upsert_outcome ten_seconds_later (toLowerCase P1) = Done"
    by (simp_all add: all_done_outcomes later_outcomes)
  have e: "price_history empty_store = []" by (simp add: empty_store_def)
  have a: "price_history
        (snd (run [(scenario_chain, all_done), (scenario_chain, select_failing)]
                (fresh_state, empty_store)))
       = [ex_price_row, ex_price_row\<lparr>ph_timestamp := 1700000010000\<rparr>]"
    by (simp only: scenario_run2 scenario_storePool_price_history [OF u(1)]
          scenario_storePool_price_history [OF u(2)] e all_done_outcomes(4) later_outcomes(4)
          first_snapshot second_snapshot_select_failed)
  have b: "price_history
        (snd (run [(scenario_chain, all_done), (scenario_chain, ten_seconds_later)]
                (fresh_state, empty_store)))
       = [ex_price_row]"
    by (simp only: scenario_run2 scenario_storePool_price_history [OF u(1)]
          scenario_storePool_price_history [OF u(3)] e all_done_outcomes(4) later_outcomes(8)
          first_snapshot second_snapshot_select_done)
  have c: "\<not> throttled [ex_price_row, ex_price_row\<lparr>ph_timestamp := 1700000010000\<rparr>]"
    by (simp add: ex_price_row_def)
  from a b c show ?thesis
    by (simp add: later_outcomes) (simp add: ex_price_row_def)
qed

section \<open>The pools page resolver on a graph without a stable leg\<close>

lemma lower_char_idem: "lower_char (lower_char ch) = lower_char ch"
  by (simp add: lower_char_def)

lemma toLowerCase_idem: "toLowerCase (toLowerCase s) = toLowerCase s"
  by (simp add: toLowerCase_def lower_char_idem)

lemma direct_loop_no_stable: "no_stable_leg pools \<Longrightarrow> direct_loop c t pools = None"
  by (induction pools) (simp_all add: no_stable_leg_def Let_def)

lemma indirect_loop_step_no_return:
  assumes IH: "\<And>allPools rest tok y. f c allPools rest tok = Some y \<Longrightarrow>
            \<not> (no_stable_leg allPools \<and> set rest \<subseteq> set allPools
                 \<and> (\<exists>p \<in> set rest. holds_token p tok))"
    and H: "no_stable_leg allPools" "set (p # ps) \<subseteq> set allPools"
      "\<exists>q \<in> set (p # ps). holds_token q tok"
    and body:
      "(if (toLowerCase (pi_tokenA p) = toLowerCase tok
              \<or> toLowerCase (pi_tokenB p) = toLowerCase tok)
           \<and> toLowerCase (pi_tokenA p) \<noteq> toLowerCase USDC_ADDRESS
           \<and> toLowerCase (pi_tokenB p) \<noteq> toLowerCase USDC_ADDRESS
        then Option.bind
               (if toLowerCase
                     (if toLowerCase (pi_tokenA p) = toLowerCase tok
                      then toLowerCase (pi_tokenB p) else toLowerCase (pi_tokenA p))
                    = toLowerCase USDC_ADDRESS
                then Some (Fin 1)
                else if direct_loop c
                          (toLowerCase
                             (if toLowerCase (pi_tokenA p) = toLowerCase tok
                              then toLowerCase (pi_tokenB p) else toLowerCase (pi_tokenA p)))
                          allPools \<noteq> None
                then direct_loop c
                       (toLowerCase
                          (if toLowerCase (pi_tokenA p) = toLowerCase tok
                           then toLowerCase (pi_tokenB p) else toLowerCase (pi_tokenA p)))
                       allPools
                else f c allPools allPools
                       (if toLowerCase (pi_tokenA p) = toLowerCase tok
                        then toLowerCase (pi_tokenB p) else toLowerCase (pi_tokenA p)))
               g
        else f c allPools ps tok) = Some y"
  shows False
proof -
  from H have pin: "p \<in> set allPools" and sub: "set ps \<subseteq> set allPools" by auto
  from H(1) pin have ns: "toLowerCase (pi_tokenA p) \<noteq> toLowerCase USDC_ADDRESS"
    "toLowerCase (pi_tokenB p) \<noteq> toLowerCase USDC_ADDRESS"
    by (auto simp: no_stable_leg_def)
  show False
  proof (cases "holds_token p tok")
    case True
    let ?inter = "if toLowerCase (pi_tokenA p) = toLowerCase tok
                  then toLowerCase (pi_tokenB p) else toLowerCase (pi_tokenA p)"
    have i1: "toLowerCase ?inter \<noteq> toLowerCase USDC_ADDRESS"
      using ns by (simp add: toLowerCase_idem)
    have i2: "holds_token p ?inter"
      by (simp add: holds_token_def toLowerCase_idem)
    from True ns have cond: "(toLowerCase (pi_tokenA p) = toLowerCase tok
              \<or> toLowerCase (pi_tokenB p) = toLowerCase tok)
           \<and> toLowerCase (pi_tokenA p) \<noteq> toLowerCase USDC_ADDRESS
           \<and> toLowerCase (pi_tokenB p) \<noteq> toLowerCase USDC_ADDRESS"
      by (simp add: holds_token_def)
    from body have "Option.bind (f c allPools allPools ?inter) g = Some y"
      unfolding if_P [OF cond] if_not_P [OF i1]
      by (simp only: direct_loop_no_stable [OF H(1)] not_False_eq_True simp_thms if_False)
    then obtain ip where "f c allPools allPools ?inter = Some ip"
      by (auto split: Option.bind_splits)
    from IH [OF this] H(1) pin i2 show False by blast
  next
    case False
    with body have "f c allPools ps tok = Some y"
      by (simp add: holds_token_def)
    moreover from H(3) False have "\<exists>q \<in> set ps. holds_token q tok" by auto
    ultimately show False using IH H(1) sub by blast
  qed
qed

lemma indirect_loop_no_return:
  assumes "indirect_loop c allPools rest tok = Some y"
  shows "\<not> (no_stable_leg allPools \<and> set rest \<subseteq> set allPools
            \<and> (\<exists>p \<in> set rest. holds_token p tok))"
proof (rule indirect_loop.raw_induct
         [where P = "\<lambda>c allPools rest tok y.
                       \<not> (no_stable_leg allPools \<and> set rest \<subseteq> set allPools
                          \<and> (\<exists>p \<in> set rest. holds_token p tok))", OF _ assms])
  fix f :: "chain \<Rightarrow> pool_info list \<Rightarrow> pool_info list \<Rightarrow> address \<Rightarrow> jsnum option"
    and c allPools rest tok y
  assume IH: "\<And>allPools rest tok b y. f allPools rest tok b = Some y \<Longrightarrow>
            \<not> (no_stable_leg rest \<and> set tok \<subseteq> set rest
                 \<and> (\<exists>p \<in> set tok. holds_token p b))"
  assume body: "(case rest of [] \<Rightarrow> Some (Fin 0)
      | p # ps \<Rightarrow>
          if (toLowerCase (pi_tokenA p) = toLowerCase tok \<or>
              toLowerCase (pi_tokenB p) = toLowerCase tok) \<and>
             toLowerCase (pi_tokenA p) \<noteq> toLowerCase USDC_ADDRESS \<and>
             toLowerCase (pi_tokenB p) \<noteq> toLowerCase USDC_ADDRESS
          then Option.bind
                (if toLowerCase
                     (if toLowerCase (pi_tokenA p) = toLowerCase tok
                      then toLowerCase (pi_tokenB p)
                      else toLowerCase (pi_tokenA p)) =
                    toLowerCase USDC_ADDRESS
                 then Some (Fin 1)
                 else if direct_loop c
                          (toLowerCase
                            (if toLowerCase (pi_tokenA p) = toLowerCase tok
                             then toLowerCase (pi_tokenB p)
                             else toLowerCase (pi_tokenA p)))
                          allPools \<noteq> None
                      then direct_loop c
                            (toLowerCase
                              (if toLowerCase (pi_tokenA p) = toLowerCase tok
                               then toLowerCase (pi_tokenB p)
                               else toLowerCase (pi_tokenA p)))
                            allPools
                      else f c allPools allPools
                            (if toLowerCase (pi_tokenA p) = toLowerCase tok
                             then toLowerCase (pi_tokenB p)
                             else toLowerCase (pi_tokenA p)))
                (\<lambda>intermediatePrice.
                    if js_pos intermediatePrice
                    then case pool_balances c p of
                         None \<Rightarrow> f c allPools ps tok
                         | Some rs \<Rightarrow>
                             Some
                              (js_mul
                                (if toLowerCase (pi_tokenA p) = toLowerCase tok
                                 then js_div (snd rs) (fst rs)
                                 else js_div (fst rs) (snd rs))
                                intermediatePrice)
                    else f c allPools ps tok)
          else f c allPools ps tok) = Some y"
  show "\<not> (no_stable_leg allPools \<and> set rest \<subseteq> set allPools
            \<and> (\<exists>p \<in> set rest. holds_token p tok))"
  proof
    assume H: "no_stable_leg allPools \<and> set rest \<subseteq> set allPools
               \<and> (\<exists>p \<in> set rest. holds_token p tok)"
    then obtain p ps where rest: "rest = p # ps" by (cases rest) auto
    from IH have IH': "\<And>allPools rest tok y. f c allPools rest tok = Some y \<Longrightarrow>
            \<not> (no_stable_leg allPools \<and> set rest \<subseteq> set allPools
                 \<and> (\<exists>p \<in> set rest. holds_token p tok))" by blast
    from H rest have H': "no_stable_leg allPools" "set (p # ps) \<subseteq> set allPools"
      "\<exists>q \<in> set (p # ps). holds_token q tok" by simp_all
    from body rest show False
      by (simp only: list.case) (rule indirect_loop_step_no_return [OF IH' H'])
  qed
qed

lemma Pools_price_never_returns:
  assumes "no_stable_leg allPools" and "\<exists>p \<in> set allPools. holds_token p tok"
    and "toLowerCase tok \<noteq> toLowerCase USDC_ADDRESS"
  shows "Pools_getTokenPriceInUSD c tok allPools = None"
proof -
  have "indirect_loop c allPools allPools tok = None"
  proof (cases "indirect_loop c allPools allPools tok")
    case None
    then show ?thesis .
  next
    case (Some y)
    from indirect_loop_no_return [OF Some] assms(1,2) show ?thesis by simp
  qed
  with assms(3) direct_loop_no_stable [OF assms(1)] show ?thesis
    by (simp add: Pools_getTokenPriceInUSD_def)
qed

section \<open>Price resolution: termination and multi-hop routes\<close>

lemma cyclic_facts:
  "no_stable_leg cyclic_pools"
  "\<exists>p \<in> set cyclic_pools. holds_token p tokA"
  "\<exists>p \<in> set cyclic_pools. holds_token p tokB"
  "\<exists>p \<in> set cyclic_pools. holds_token p tokC"
  "toLowerCase tokA \<noteq> toLowerCase USDC_ADDRESS"
  "toLowerCase tokB \<noteq> toLowerCase USDC_ADDRESS"
  "toLowerCase tokC \<noteq> toLowerCase USDC_ADDRESS"
  by (simp_all add: no_stable_leg_def holds_token_def cyclic_pools_def tokA_def tokB_def
        tokC_def USDC_ADDRESS_def toLowerCase_def lower_char_def)

text \<open>
  C4. On the cyclic graph A/B, B/C, C/A without a stable leg, the pools page's
  \<open>getTokenPriceInUSD\<close> returns for none of the three tokens, whatever the chain answers.
\<close>

theorem page_resolver_diverges_on_cycle:
  "Pools_getTokenPriceInUSD c tokA cyclic_pools = None
   \<and> Pools_getTokenPriceInUSD c tokB cyclic_pools = None
   \<and> Pools_getTokenPriceInUSD c tokC cyclic_pools = None"
  using Pools_price_never_returns [OF cyclic_facts(1) cyclic_facts(2) cyclic_facts(5), of c]
        Pools_price_never_returns [OF cyclic_facts(1) cyclic_facts(3) cyclic_facts(6), of c]
        Pools_price_never_returns [OF cyclic_facts(1) cyclic_facts(4) cyclic_facts(7), of c]
  by simp

text \<open>
  The indexer's resolver, for every token without a direct USDC pair among the pools: 0,
  whatever other pools there are.
\<close>

lemma usdc_pair_loop_no_pair:
  "\<forall>p \<in> set pools. \<not> direct_usdc_pair c tok p \<Longrightarrow> usdc_pair_loop c tok pools = 0"
  by (induction pools) (auto simp: direct_usdc_pair_def split: option.splits)

lemma indexer_price_single_hop:
  assumes "toLowerCase tok \<noteq> toLowerCase USDC_ADDRESS"
    and "\<forall>p \<in> set pools. \<not> direct_usdc_pair c tok p"
  shows "getTokenPriceInUSD c tok pools = 0"
  using assms by (simp add: getTokenPriceInUSD_def usdc_pair_loop_no_pair)


text \<open>
  The pools page's resolver follows routes through an intermediate token. Its second loop
  skips the pools that do not pair the token with a non-stable token; at the first pool
  that does, it resolves the intermediate token by the same procedure and, when that price
  is positive and the balances can be read, returns the price times the reserve ratio.
  Without any such pool its result is 0.
\<close>

lemma direct_loop_no_pair:
  "\<forall>p \<in> set pools. \<not> page_direct_pair p tok \<Longrightarrow> direct_loop c (toLowerCase tok) pools = None"
  by (induction pools) (auto simp: page_direct_pair_def Let_def)

lemma indirect_loop_Nil: "indirect_loop c allPools [] tok = Some (Fin 0)"
  by (subst indirect_loop.simps) simp

lemma indirect_loop_skip:
  "\<not> route_pool p tok \<Longrightarrow>
   indirect_loop c allPools (p # ps) tok = indirect_loop c allPools ps tok"
  by (subst indirect_loop.simps) (auto simp: route_pool_def holds_token_def)

lemma indirect_loop_skips:
  "\<forall>q \<in> set pre. \<not> route_pool q tok \<Longrightarrow>
   indirect_loop c allPools (pre @ rest) tok = indirect_loop c allPools rest tok"
  by (induction pre) (simp_all add: indirect_loop_skip)

lemma intermediate_call:
  "Pools_getTokenPriceInUSD c (intermediate_of p tok) allPools
     = (if toLowerCase (intermediate_of p tok) = toLowerCase USDC_ADDRESS
        then Some (Fin 1)
        else if direct_loop c (toLowerCase (intermediate_of p tok)) allPools \<noteq> None
        then direct_loop c (toLowerCase (intermediate_of p tok)) allPools
        else indirect_loop c allPools allPools (intermediate_of p tok))"
  by (simp add: Pools_getTokenPriceInUSD_def)

lemma indirect_loop_route:
  assumes "route_pool p tok"
    and "Pools_getTokenPriceInUSD c (intermediate_of p tok) allPools = Some ip"
    and "js_pos ip"
    and "pool_balances c p = Some rs"
  shows "indirect_loop c allPools (p # ps) tok
           = Some (js_mul (ratio_against_intermediate p tok rs) ip)"
proof -
  from assms(1) have cond: "(toLowerCase (pi_tokenA p) = toLowerCase tok
              \<or> toLowerCase (pi_tokenB p) = toLowerCase tok)
           \<and> toLowerCase (pi_tokenA p) \<noteq> toLowerCase USDC_ADDRESS
           \<and> toLowerCase (pi_tokenB p) \<noteq> toLowerCase USDC_ADDRESS"
    by (simp add: route_pool_def holds_token_def)
  have "indirect_loop c allPools (p # ps) tok
          = Option.bind (Pools_getTokenPriceInUSD c (intermediate_of p tok) allPools)
              (\<lambda>intermediatePrice.
                 if js_pos intermediatePrice
                 then (case pool_balances c p of
                         None \<Rightarrow> indirect_loop c allPools ps tok
                       | Some rs \<Rightarrow>
                           Some (js_mul (ratio_against_intermediate p tok rs) intermediatePrice))
                 else indirect_loop c allPools ps tok)"
    unfolding intermediate_call
    by (subst indirect_loop.simps)
       (simp only: list.case if_P [OF cond] intermediate_of_def ratio_against_intermediate_def)
  with assms(2,3,4) show ?thesis by simp
qed

lemma Pools_price_through_intermediate:
  assumes "toLowerCase tok \<noteq> toLowerCase USDC_ADDRESS"
    and "\<forall>q \<in> set allPools. \<not> page_direct_pair q tok"
    and "allPools = pre @ p # post"
    and "\<forall>q \<in> set pre. \<not> route_pool q tok"
    and "route_pool p tok"
    and "Pools_getTokenPriceInUSD c (intermediate_of p tok) allPools = Some ip"
    and "js_pos ip"
    and "pool_balances c p = Some rs"
  shows "Pools_getTokenPriceInUSD c tok allPools
           = Some (js_mul (ratio_against_intermediate p tok rs) ip)"
proof -
  have "indirect_loop c allPools allPools tok = indirect_loop c allPools (p # post) tok"
    using indirect_loop_skips [OF assms(4), of c allPools "p # post"] assms(3) by simp
  also have "\<dots> = Some (js_mul (ratio_against_intermediate p tok rs) ip)"
    by (rule indirect_loop_route [OF assms(5-8)])
  finally show ?thesis
    using assms(1) direct_loop_no_pair [OF assms(2), of c]
    by (simp add: Pools_getTokenPriceInUSD_def)
qed

lemma Pools_price_no_route:
  assumes "toLowerCase tok \<noteq> toLowerCase USDC_ADDRESS"
    and "\<forall>q \<in> set allPools. \<not> page_direct_pair q tok"
    and "\<forall>q \<in> set allPools. \<not> route_pool q tok"
  shows "Pools_getTokenPriceInUSD c tok allPools = Some (Fin 0)"
  using assms(1) direct_loop_no_pair [OF assms(2), of c]
        indirect_loop_skips [OF assms(3), of c allPools "[]"]
  by (simp add: Pools_getTokenPriceInUSD_def indirect_loop_Nil)

lemma lower_digits2: "toLowerCase TK2 = TK2" "toLowerCase P2 = P2"
  by (simp_all add: toLowerCase_def lower_char_def TK2_def P2_def)

lemma distinct_names:
  "TK2 \<noteq> USDC_ADDRESS" "TK2 \<noteq> TKN" "TKN \<noteq> TK2" "P1 \<noteq> P2" "P2 \<noteq> P1" "USDC_ADDRESS \<noteq> TKN"
  "USDC_ADDRESS \<noteq> TK2"
  by (simp_all add: TK2_def TKN_def USDC_ADDRESS_def P1_def P2_def)

lemma twohop_reads:
  "pool_tokenA twohop_chain P1 = Some USDC_ADDRESS"
  "pool_tokenB twohop_chain P1 = Some TKN"
  "pool_tokenA twohop_chain P2 = Some TKN"
  "pool_tokenB twohop_chain P2 = Some TK2"
  "pool_reserveA twohop_chain P1 = Some 1000000000"
  "pool_reserveB twohop_chain P1 = Some 500000000000000000000"
  "erc20_balanceOf twohop_chain USDC_ADDRESS P1 = Some 1000000000"
  "erc20_balanceOf twohop_chain TKN P1 = Some 500000000000000000000"
  "erc20_balanceOf twohop_chain TKN P2 = Some 300000000000000000000"
  "erc20_balanceOf twohop_chain TK2 P2 = Some 100000000000000000000"
  by (simp_all add: twohop_chain_def distinct_names TKN_not_USDC)

lemma TKN_info_twohop: "getTokenInfo twohop_chain TKN = getTokenInfo scenario_chain TKN"
  by (simp add: getTokenInfo_def twohop_chain_def cong: option.case_cong)

lemma twohop_no_direct_pair:
  "\<not> direct_usdc_pair twohop_chain TK2 P1" "\<not> direct_usdc_pair twohop_chain TK2 P2"
  by (simp_all add: direct_usdc_pair_def twohop_reads lower_digits lower_digits2
        distinct_names TKN_not_USDC)

lemma twohop_price_TKN: "getTokenPriceInUSD twohop_chain TKN [P1, P2] = 2"
  by (simp add: getTokenPriceInUSD_def lower_digits TKN_not_USDC twohop_reads
        TKN_info TKN_info_twohop formatted_def)

lemma twohop_price_TK2: "getTokenPriceInUSD twohop_chain TK2 [P1, P2] = 0"
  using twohop_no_direct_pair
  by (intro indexer_price_single_hop) (simp_all add: lower_digits lower_digits2 distinct_names)

lemma page_decimals:
  "token_decimals USDC_ADDRESS = 6" "token_decimals TKN = 18" "token_decimals TK2 = 18"
  by (simp_all add: token_decimals_def TOKENS_def toLowerCase_def lower_char_def
        USDC_ADDRESS_def TKN_def TK2_def)

lemma hop_fields:
  "pi_tokenA hop1 = USDC_ADDRESS" "pi_tokenB hop1 = TKN" "pi_poolAddress hop1 = P1"
  "pi_tokenA hop2 = TKN" "pi_tokenB hop2 = TK2" "pi_poolAddress hop2 = P2"
  by (simp_all add: hop1_def hop2_def)

lemma twohop_balances:
  "pool_balances twohop_chain hop1 = Some (1000, 500)"
  "pool_balances twohop_chain hop2 = Some (300, 100)"
  by (simp_all add: pool_balances_def hop_fields twohop_reads page_decimals formatted_def)

lemma twohop_direct:
  "direct_loop twohop_chain TKN twohop_pools = Some (Fin 2)"
  "direct_loop twohop_chain TK2 twohop_pools = None"
  by (simp_all add: twohop_pools_def Let_def hop_fields twohop_balances lower_digits
        lower_digits2 distinct_names TKN_not_USDC js_div_def)

lemma twohop_page_price_TKN:
  "Pools_getTokenPriceInUSD twohop_chain TKN twohop_pools = Some (Fin 2)"
  by (simp add: Pools_getTokenPriceInUSD_def lower_digits TKN_not_USDC twohop_direct)

lemma twohop_page_price_TK2:
  "Pools_getTokenPriceInUSD twohop_chain TK2 twohop_pools = Some (Fin 6)"
proof -
  have h1: "toLowerCase TK2 \<noteq> toLowerCase USDC_ADDRESS"
    by (simp add: lower_digits lower_digits2 distinct_names)
  have h2: "\<forall>q \<in> set twohop_pools. \<not> page_direct_pair q TK2"
    by (simp add: twohop_pools_def page_direct_pair_def hop_fields lower_digits lower_digits2
          distinct_names TKN_not_USDC)
  have h3: "twohop_pools = [hop1] @ hop2 # []" by (simp add: twohop_pools_def)
  have h4: "\<forall>q \<in> set [hop1]. \<not> route_pool q TK2"
    by (simp add: route_pool_def hop_fields)
  have h5: "route_pool hop2 TK2"
    by (simp add: route_pool_def holds_token_def hop_fields lower_digits lower_digits2
          distinct_names TKN_not_USDC)
  have i: "intermediate_of hop2 TK2 = TKN"
    by (simp add: intermediate_of_def hop_fields lower_digits lower_digits2 distinct_names)
  have h6: "Pools_getTokenPriceInUSD twohop_chain (intermediate_of hop2 TK2) twohop_pools
              = Some (Fin 2)"
    by (simp add: i twohop_page_price_TKN)
  have h7: "js_pos (Fin 2)" by simp
  have r: "ratio_against_intermediate hop2 TK2 (300, 100) = Fin 3"
    by (simp add: ratio_against_intermediate_def hop_fields lower_digits lower_digits2
          distinct_names js_div_def)
  from Pools_price_through_intermediate [OF h1 h2 h3 h4 h5 h6 h7 twohop_balances(2)] r
  show ?thesis by simp
qed

text \<open>
  C2. The indexer's \<open>getTokenPriceInUSD\<close> does not follow routes: it has the loop over the
  direct USDC pairs only and then returns 0. On the two-hop graph USDC/TKN, TKN/TK2 the
  token TK2 has no pool with USDC, the intermediate TKN is priced 2 and TK2 trades at 3
  TKN, yet the indexer's resolution returns 0 where the specification says 6, which is
  what the pools page's resolver returns on the same graph.
\<close>

theorem indexer_price_zero_despite_route:
  "\<not> direct_usdc_pair twohop_chain TK2 P1 \<and> \<not> direct_usdc_pair twohop_chain TK2 P2
   \<and> getTokenPriceInUSD twohop_chain TKN [P1, P2] = 2
   \<and> formatted 300000000000000000000 18 / formatted 100000000000000000000 18 = 3
   \<and> getTokenPriceInUSD twohop_chain TK2 [P1, P2] = 0
   \<and> Pools_getTokenPriceInUSD twohop_chain TK2 twohop_pools = Some (Fin 6)"
  using twohop_no_direct_pair twohop_price_TKN twohop_price_TK2 twohop_page_price_TK2
  by (simp add: formatted_def)

section \<open>The block cursor\<close>

lemma index_cursor_value:
  "lastProcessedBlock (fst (index c env s)) =
     (case getBlockNumber c of
        None \<Rightarrow> lastProcessedBlock (fst s)
      | Some h \<Rightarrow>
          if cursor_or_lookback (lastProcessedBlock (fst s)) h + 1 \<le> h
             \<and> getLogs_PoolCreated c (cursor_or_lookback (lastProcessedBlock (fst s)) h + 1) h
                 \<noteq> None
          then Some h
          else Some (cursor_or_lookback (lastProcessedBlock (fst s)) h))"
  by (simp add: index_def Let_def split: option.splits)

lemma index_outcome:
  "snd (snd (index c env s)) =
     (case getBlockNumber c of
        None \<Rightarrow> Threw
      | Some h \<Rightarrow>
          if cursor_or_lookback (lastProcessedBlock (fst s)) h + 1 \<le> h
             \<and> getLogs_PoolCreated c (cursor_or_lookback (lastProcessedBlock (fst s)) h + 1) h
                 = None
          then Threw else Completed)"
  by (simp add: index_def Let_def split: option.splits)

text \<open>
  C3 (amended). The cursor is advanced to the head block exactly when the head-block read
  succeeds, the block range is not empty and the \<open>PoolCreated\<close> log query succeeds, and
  the cycle then completes: nothing else of the chain or of the store enters, so failing
  swap-log queries, balance reads and store writes do not hold it back. When the head-block
  read throws the cursor keeps its value; when the \<open>PoolCreated\<close> query throws, or there
  is no new block, it keeps its value or, on a first cycle, its initial look-back.
\<close>

theorem index_cursor_advance:
  "(getBlockNumber c = None \<longrightarrow>
      lastProcessedBlock (fst (index c env s)) = lastProcessedBlock (fst s)
      \<and> snd (snd (index c env s)) = Threw)
   \<and> (\<forall>h b. getBlockNumber c = Some h
            \<and> b = cursor_or_lookback (lastProcessedBlock (fst s)) h \<longrightarrow>
         (b + 1 \<le> h \<and> getLogs_PoolCreated c (b + 1) h \<noteq> None \<longrightarrow>
            lastProcessedBlock (fst (index c env s)) = Some h
            \<and> snd (snd (index c env s)) = Completed)
       \<and> (b + 1 \<le> h \<and> getLogs_PoolCreated c (b + 1) h = None \<longrightarrow>
            lastProcessedBlock (fst (index c env s)) = Some b
            \<and> snd (snd (index c env s)) = Threw)
       \<and> (h < b + 1 \<longrightarrow>
            lastProcessedBlock (fst (index c env s)) = Some b
            \<and> snd (snd (index c env s)) = Completed))"
  by (simp add: index_cursor_value index_outcome)

lemma failing_reads:
  "getBlockNumber failing_chain = Some 100"
  "getLogs_PoolCreated failing_chain 91 100 = Some []"
  "getLogs_Swap failing_chain P1 91 100 = None"
  "erc20_balanceOf failing_chain USDC_ADDRESS P1 = None"
  "factory_allPoolsLength failing_chain = Some 1"
  "factory_allPools failing_chain 0 = Some P1"
  by (simp_all add: failing_chain_def scenario_chain_def)

lemma failing_pools: "fst (fetchAllPools failing_chain {}) = [P1]"
  by (simp add: fetchAllPools_def failing_reads fetch_step_def P1_def ZERO_ADDRESS_def)

theorem index_cursor_advance_witness:
  "getBlockNumber failing_chain = Some 100
   \<and> (90::int) = cursor_or_lookback (lastProcessedBlock (fst (state_at_90, empty_store))) 100
   \<and> (90::int) + 1 \<le> 100
   \<and> getLogs_PoolCreated failing_chain (90 + 1) 100 \<noteq> None
   \<and> lastProcessedBlock (fst (index failing_chain all_thrown (state_at_90, empty_store)))
       = Some 100
   \<and> snd (snd (index failing_chain all_thrown (state_at_90, empty_store))) = Completed"
proof -
  have h1: "(90::int) = cursor_or_lookback (lastProcessedBlock (fst (state_at_90, empty_store))) 100"
    by (simp add: cursor_or_lookback_def state_at_90_def)
  have h2: "getLogs_PoolCreated failing_chain (90 + 1) 100 \<noteq> None"
    by (simp add: failing_reads)
  from index_cursor_advance [of failing_chain all_thrown "(state_at_90, empty_store)"]
       failing_reads(1) h1 h2
  show ?thesis by simp
qed

text \<open>
  C3 as stated fails: in a cycle over blocks 91 to 100 in which the swap-log query of the
  only pool throws, the balance reads throw and every store write throws, the cycle still
  completes and the cursor moves from 90 to 100; the next cycle starts at block 101.
\<close>

theorem cursor_advanced_despite_failures:
  "lastProcessedBlock state_at_90 = Some 90
   \<and> fst (fetchAllPools failing_chain {}) = [P1]
   \<and> getLogs_Swap failing_chain P1 91 100 = None
   \<and> erc20_balanceOf failing_chain USDC_ADDRESS P1 = None
   \<and> swap_upsert_outcome all_thrown ''0xabc'' = Thrown
   \<and> lastProcessedBlock (fst (index failing_chain all_thrown (state_at_90, empty_store)))
       = Some 100
   \<and> snd (snd (index failing_chain all_thrown (state_at_90, empty_store))) = Completed"
  by (simp add: index_cursor_value index_outcome failing_reads failing_pools
        cursor_or_lookback_def state_at_90_def all_thrown_def)

section \<open>Volume and fees\<close>

















section \<open>Volume and fees on the example rows\<close>















end
